theory Spec2Isabelle
  imports Main
begin

section \<open>The API gateway of the microservices variant\<close>

text \<open>
  The development embeds \<^verbatim>\<open>sample-app/03-microservices/api-gateway/app.py\<close>: the
  forwarder \<^verbatim>\<open>forward_request\<close>, the route handlers, the health check and the
  dispatch that the route decorators configure. The HTTP client is a parameter (a function
  from the outbound call to what the client returns or raises), and every call that a
  handler issues is appended to a log that is threaded through the handlers. The
  conversion of a path segment to the \<^verbatim>\<open>int\<close> that two handlers declare is
  done by the framework's validation library; it is a parameter too (a partial function
  from the text of the segment to the integer).
\<close>

subsection \<open>Python strings\<close>

text \<open>
  Bytes, and the strings that the server decodes from bytes one by one (paths, request
  headers), are lists of \<^typ>\<open>char\<close>. The header values of the client's response are
  decoded by the client, as UTF-8 when that is possible, and may hold any character: they
  are lists of code points.
\<close>

type_synonym unicode = "nat list"

definition decode_latin1 :: "string \<Rightarrow> unicode" where
  "decode_latin1 s = map of_char s"

text \<open>Python's \<^verbatim>\<open>str\<close> of a natural number, and its \<^verbatim>\<open>'%x'\<close> format.\<close>

definition digit_char :: "nat \<Rightarrow> char" where
  "digit_char d = char_of (48 + d)"

fun str_nat :: "nat \<Rightarrow> string" where
  "str_nat n = (if n < 10 then [digit_char n] else str_nat (n div 10) @ [digit_char (n mod 10)])"

declare str_nat.simps [simp del]

definition hex_digit :: "nat \<Rightarrow> char" where
  "hex_digit d = (if d < 10 then char_of (48 + d) else char_of (87 + d))"

fun hex_nat :: "nat \<Rightarrow> string" where
  "hex_nat n = (if n < 16 then [hex_digit n] else hex_nat (n div 16) @ [hex_digit (n mod 16)])"

declare hex_nat.simps [simp del]

definition zero_pad :: "nat \<Rightarrow> string \<Rightarrow> string" where
  "zero_pad w s = replicate (w - length s) (CHR ''0'') @ s"

text \<open>
  \<^verbatim>\<open>s.encode("latin-1")\<close>: every code point below 256 becomes one byte. Otherwise
  Python raises \<^verbatim>\<open>UnicodeEncodeError\<close>, whose \<^verbatim>\<open>str\<close> names the first run of
  characters that cannot be encoded: the character itself (a backslash, \<^verbatim>\<open>u\<close> and
  four hexadecimal digits, or \<^verbatim>\<open>U\<close> and eight digits above \<^verbatim>\<open>0xFFFF\<close>) and
  its position when the run has one character, the first and the last position when it
  has more. The result is the message
  (\<open>Inl\<close>) or the bytes (\<open>Inr\<close>).
\<close>

definition quote :: "string \<Rightarrow> string" where
  "quote s = [CHR 0x27] @ s @ [CHR 0x27]"

definition escape_char :: "nat \<Rightarrow> string" where
  "escape_char c =
     (if c \<le> 0xFFFF then [CHR 0x5C] @ ''u'' @ zero_pad 4 (hex_nat c)
      else [CHR 0x5C] @ ''U'' @ zero_pad 8 (hex_nat c))"

definition unicode_encode_error :: "unicode \<Rightarrow> string" where
  "unicode_encode_error s =
     (let start = length (takeWhile (\<lambda>c. c < 256) s);
          bad = takeWhile (\<lambda>c. 256 \<le> c) (dropWhile (\<lambda>c. c < 256) s)
      in quote ''latin-1'' @ '' codec can'' @ [CHR 0x27] @ ''t encode '' @
         (case bad of
            [badchar] \<Rightarrow>
              ''character '' @ quote (escape_char badchar) @ '' in position '' @ str_nat start
          | _ \<Rightarrow>
              ''characters in position '' @ str_nat start @ ''-'' @
                str_nat (start + length bad - 1)) @
         '': ordinal not in range(256)'')"

definition is_latin1 :: "unicode \<Rightarrow> bool" where
  "is_latin1 s = list_all (\<lambda>c. c < 256) s"

definition encode_latin1 :: "unicode \<Rightarrow> string + string" where
  "encode_latin1 s = (if is_latin1 s then Inr (map char_of s) else Inl (unicode_encode_error s))"

text \<open>
  \<^verbatim>\<open>s.lower()\<close> on a string of characters below 256: the letters \<^verbatim>\<open>A\<close> to
  \<^verbatim>\<open>Z\<close> and the upper-case letters of the range \<^verbatim>\<open>0xC0\<close> to \<^verbatim>\<open>0xDE\<close>
  (the multiplication sign \<^verbatim>\<open>0xD7\<close> is not one) move up by 32.
\<close>

definition lower_char :: "char \<Rightarrow> char" where
  "lower_char c =
     (let n = (of_char c :: nat)
      in if (65 \<le> n \<and> n \<le> 90) \<or> (192 \<le> n \<and> n \<le> 222 \<and> n \<noteq> 215) then char_of (n + 32)
         else c)"

definition lower :: "string \<Rightarrow> string" where
  "lower s = map lower_char s"

subsection \<open>Python dictionaries and multi-dictionaries\<close>

text \<open>
  A Python \<^verbatim>\<open>dict\<close> with string keys is an association list with distinct keys, in
  insertion order. Headers and query parameters arrive as multi-dictionaries: lists of
  pairs in which a key may repeat.
\<close>

type_synonym pairs = "(string \<times> string) list"

text \<open>\<^verbatim>\<open>d[k] = v\<close>: an existing key keeps its position, a new key goes to the end.\<close>

fun dict_set :: "('k \<times> 'v) list \<Rightarrow> 'k \<Rightarrow> 'v \<Rightarrow> ('k \<times> 'v) list" where
  "dict_set [] k v = [(k, v)]"
| "dict_set ((k', v') # d) k v = (if k' = k then (k', v) # d else (k', v') # dict_set d k v)"

text \<open>\<^verbatim>\<open>d.pop(k, None)\<close>, the popped value dropped.\<close>

fun dict_pop :: "('k \<times> 'v) list \<Rightarrow> 'k \<Rightarrow> ('k \<times> 'v) list" where
  "dict_pop [] k = []"
| "dict_pop ((k', v') # d) k = (if k' = k then dict_pop d k else (k', v') # dict_pop d k)"

text \<open>
  \<^verbatim>\<open>dict(request.query_params)\<close>: the query parameters are an immutable
  multi-dictionary whose mapping view is built by assigning the items in order, so the
  last value of a repeated key stays.
\<close>

definition dict_of_query_params :: "pairs \<Rightarrow> pairs" where
  "dict_of_query_params items = foldl (\<lambda>d (k, v). dict_set d k v) [] items"

text \<open>
  \<^verbatim>\<open>dict(request.headers)\<close>: the keys of the request headers are the names of the
  raw list (lower-case, as the server delivers them), repeated names included, and the
  lookup of a name returns the first value with that name.
\<close>

definition headers_getitem :: "pairs \<Rightarrow> string \<Rightarrow> string option" where
  "headers_getitem hs k = map_of hs k"

definition dict_of_headers :: "pairs \<Rightarrow> pairs" where
  "dict_of_headers hs =
     foldl (\<lambda>d k. case headers_getitem hs k of Some v \<Rightarrow> dict_set d k v | None \<Rightarrow> d)
       [] (map fst hs)"

text \<open>
  \<^verbatim>\<open>dict(response.headers)\<close>: the headers of the client's response are a
  multi-dictionary too (the names as the client exposes them, normalised to lower case);
  the lookup of a name joins all its values with a comma and a blank.
\<close>

fun join :: "'a list \<Rightarrow> 'a list list \<Rightarrow> 'a list" where
  "join sep [] = []"
| "join sep [x] = x"
| "join sep (x # y # ys) = x @ sep @ join sep (y # ys)"

definition httpx_headers_get :: "(string \<times> unicode) list \<Rightarrow> string \<Rightarrow> unicode option" where
  "httpx_headers_get hs k =
     (let items = map snd (filter (\<lambda>(k', v). k' = k) hs)
      in if items = [] then None else Some (join (decode_latin1 '', '') items))"

definition dict_of_httpx_headers :: "(string \<times> unicode) list \<Rightarrow> (string \<times> unicode) list" where
  "dict_of_httpx_headers hs =
     foldl (\<lambda>d k. case httpx_headers_get hs k of Some v \<Rightarrow> dict_set d k v | None \<Rightarrow> d)
       [] (map fst hs)"

subsection \<open>Requests, outbound calls and responses\<close>

record request =
  req_method :: string
  req_path :: string
  req_headers :: pairs
  req_query_params :: pairs
  req_body :: string

text \<open>
  One call of the HTTP client: the timeout the client was created with (seconds) and the
  arguments of \<^verbatim>\<open>client.request\<close>.
\<close>

record outbound_call =
  call_timeout :: nat
  call_method :: string
  call_url :: string
  call_headers :: pairs
  call_content :: "string option"
  call_params :: pairs

text \<open>
  The response object of the client: the status code, \<^verbatim>\<open>response.content\<close> (the
  body after the client has undone the content encoding) and \<^verbatim>\<open>response.headers\<close>.
\<close>

record backend_response =
  resp_status_code :: nat
  resp_content :: string
  resp_headers :: "(string \<times> unicode) list"

text \<open>
  What the client raises, by the classes the handlers catch: \<^verbatim>\<open>httpx.ConnectError\<close>,
  \<^verbatim>\<open>httpx.TimeoutException\<close> (with its four subclasses) and any other exception, with
  its \<^verbatim>\<open>str(e)\<close>.
\<close>

datatype timeout_kind = ConnectTimeout | ReadTimeout | WriteTimeout | PoolTimeout

datatype client_error =
    ConnectError
  | TimeoutException timeout_kind
  | OtherException string

type_synonym network = "outbound_call \<Rightarrow> client_error + backend_response"

definition client_request ::
  "network \<Rightarrow> outbound_call \<Rightarrow> outbound_call list
     \<Rightarrow> (client_error + backend_response) \<times> outbound_call list" where
  "client_request net c log = (net c, log @ [c])"

datatype json = JStr string | JObj "(string \<times> json) list"

text \<open>
  The responses of the gateway. \<open>Response\<close> carries the body, the status code, the header
  list that the constructor encodes from the dictionary it is given, and the media type;
  \<open>JSONResponse\<close> a status code and a JSON content. The last four are responses that the
  framework builds by itself and whose bodies are not modelled: the redirect to a path
  with the trailing slash toggled, the 422 for a path parameter that fails validation
  (with the parameter's name), the answer of the CORS middleware to a preflight request,
  and the pages of the framework's own documentation routes. Headers that the framework
  adds on its own when a response is sent (a missing content length, the CORS headers)
  are not part of these values.
\<close>

datatype response =
    Response string nat pairs "unicode option"
  | JSONResponse nat json
  | RedirectResponse string
  | UnprocessableEntity string
  | PreflightResponse
  | FrameworkPage

text \<open>
  What a handler raises: \<^verbatim>\<open>HTTPException\<close> with a status code and a detail, the
  validation error of a path parameter, and the \<^verbatim>\<open>ValueError\<close> of Python's
  conversion of a very long integer to text.
\<close>

datatype exn =
    HTTPException nat string
  | RequestValidationError string
  | ValueError

text \<open>
  The constructor call \<^verbatim>\<open>Response(content=..., status_code=..., headers=...,
  media_type=...)\<close>: the constructor encodes, item by item, the lower-cased name and the
  value of every header in \<^verbatim>\<open>latin-1\<close>, and raises when a value has no such
  encoding. The media type is not encoded when the headers hold a content type, which is
  the case whenever the media type passed by \<^verbatim>\<open>forward_request\<close> is not
  \<^verbatim>\<open>None\<close>.
\<close>

fun encode_headers :: "(string \<times> unicode) list \<Rightarrow> string + pairs" where
  "encode_headers [] = Inr []"
| "encode_headers ((k, v) # hs) =
     (case encode_latin1 v of
        Inl msg \<Rightarrow> Inl msg
      | Inr b \<Rightarrow>
          (case encode_headers hs of
             Inl msg \<Rightarrow> Inl msg
           | Inr raw \<Rightarrow> Inr ((lower k, b) # raw)))"

definition Response_init ::
  "string \<Rightarrow> nat \<Rightarrow> (string \<times> unicode) list \<Rightarrow> unicode option \<Rightarrow> string + response" where
  "Response_init content status_code headers media_type =
     (case encode_headers headers of
        Inl msg \<Rightarrow> Inl msg
      | Inr raw_headers \<Rightarrow> Inr (Response content status_code raw_headers media_type))"

record settings =
  TASK_SERVICE_URL :: string
  USER_SERVICE_URL :: string
  PROJECT_SERVICE_URL :: string

subsection \<open>The forwarder\<close>

text \<open>
  The construction of the response is inside the \<^verbatim>\<open>try\<close> block, so what the
  constructor raises is caught by \<^verbatim>\<open>except Exception\<close> like any other exception
  that is neither a connection error nor a timeout.
\<close>

definition forward_request ::
  "network \<Rightarrow> string \<Rightarrow> string \<Rightarrow> string \<Rightarrow> request \<Rightarrow> string option
     \<Rightarrow> outbound_call list \<Rightarrow> (exn + response) \<times> outbound_call list" where
  "forward_request net service_url path method request body log =
     (let url = service_url @ path;
          headers = dict_pop (dict_of_headers (req_headers request)) ''host'';
          call = \<lparr>call_timeout = 30, call_method = method, call_url = url,
                  call_headers = headers, call_content = body,
                  call_params = dict_of_query_params (req_query_params request)\<rparr>
      in case client_request net call log of
           (Inr response, log') \<Rightarrow>
             (case Response_init (resp_content response) (resp_status_code response)
                     (dict_of_httpx_headers (resp_headers response))
                     (httpx_headers_get (resp_headers response) ''content-type'') of
                Inr r \<Rightarrow> (Inr r, log')
              | Inl msg \<Rightarrow> (Inl (HTTPException 500 (''Gateway error: '' @ msg)), log'))
         | (Inl ConnectError, log') \<Rightarrow>
             (Inl (HTTPException 503 (''Service unavailable: '' @ service_url)), log')
         | (Inl (TimeoutException k), log') \<Rightarrow>
             (Inl (HTTPException 504 (''Service timeout: '' @ service_url)), log')
         | (Inl (OtherException msg), log') \<Rightarrow>
             (Inl (HTTPException 500 (''Gateway error: '' @ msg)), log'))"

subsection \<open>The handlers\<close>

definition root :: "settings \<Rightarrow> json" where
  "root cfg =
     JObj [(''service'', JStr ''API Gateway''),
           (''version'', JStr ''1.0.0''),
           (''architecture'', JStr ''microservices''),
           (''services'', JObj [(''tasks'', JStr (TASK_SERVICE_URL cfg)),
                                (''users'', JStr (USER_SERVICE_URL cfg)),
                                (''projects'', JStr (PROJECT_SERVICE_URL cfg))])]"

definition health_probe :: "settings \<Rightarrow> outbound_call" where
  "health_probe cfg =
     \<lparr>call_timeout = 5, call_method = ''GET'', call_url = TASK_SERVICE_URL cfg @ ''/health'',
      call_headers = [], call_content = None, call_params = []\<rparr>"

definition health :: "settings \<Rightarrow> network \<Rightarrow> outbound_call list \<Rightarrow> json \<times> outbound_call list" where
  "health cfg net log =
     (let services_health = [];
          (r, log') = client_request net (health_probe cfg) log;
          services_health =
            (case r of
               Inr response \<Rightarrow>
                 dict_set services_health ''task-service''
                   (JStr (if resp_status_code response = 200 then ''healthy'' else ''unhealthy''))
             | Inl e \<Rightarrow> dict_set services_health ''task-service'' (JStr ''unreachable''))
      in (JObj [(''gateway'', JStr ''healthy''), (''services'', JObj services_health)], log'))"

definition tasks_route ::
  "settings \<Rightarrow> network \<Rightarrow> request \<Rightarrow> outbound_call list
     \<Rightarrow> (exn + response) \<times> outbound_call list" where
  "tasks_route cfg net request log =
     (let body = (if req_method request = ''POST'' then Some (req_body request) else None)
      in forward_request net (TASK_SERVICE_URL cfg) ''/tasks'' (req_method request) request body log)"

text \<open>
  Python's \<^verbatim>\<open>str\<close> of an integer, as the f-strings of the two handlers below use
  it: the decimal digits, after a minus sign for a negative number. An integer of more
  than 4300 digits is not converted: Python raises \<^verbatim>\<open>ValueError\<close>.
\<close>

definition str_int :: "int \<Rightarrow> string" where
  "str_int i = (if i < 0 then CHR ''-'' # str_nat (nat (- i)) else str_nat (nat i))"

definition int_max_str_digits :: nat where
  "int_max_str_digits = 4300"

definition format_int :: "int \<Rightarrow> exn + string" where
  "format_int i =
     (if int_max_str_digits < length (str_nat (nat \<bar>i\<bar>)) then Inl ValueError
      else Inr (str_int i))"

definition task_by_id_route ::
  "settings \<Rightarrow> network \<Rightarrow> request \<Rightarrow> int \<Rightarrow> outbound_call list
     \<Rightarrow> (exn + response) \<times> outbound_call list" where
  "task_by_id_route cfg net request task_id log =
     (let body = (if req_method request \<in> set [''PUT'', ''PATCH'']
                  then Some (req_body request) else None)
      in case format_int task_id of
           Inl e \<Rightarrow> (Inl e, log)
         | Inr s \<Rightarrow>
             forward_request net (TASK_SERVICE_URL cfg) (''/tasks/'' @ s)
               (req_method request) request body log)"

definition task_status_route ::
  "settings \<Rightarrow> network \<Rightarrow> request \<Rightarrow> int \<Rightarrow> outbound_call list
     \<Rightarrow> (exn + response) \<times> outbound_call list" where
  "task_status_route cfg net request task_id log =
     (let body = Some (req_body request)
      in case format_int task_id of
           Inl e \<Rightarrow> (Inl e, log)
         | Inr s \<Rightarrow>
             forward_request net (TASK_SERVICE_URL cfg) (''/tasks/'' @ s @ ''/status'')
               (req_method request) request body log)"

definition users_route :: "request \<Rightarrow> response" where
  "users_route request =
     JSONResponse 501 (JObj [(''detail'', JStr ''User service not implemented yet'')])"

definition projects_route :: "request \<Rightarrow> response" where
  "projects_route request =
     JSONResponse 501 (JObj [(''detail'', JStr ''Project service not implemented yet'')])"

definition not_found_handler :: "request \<Rightarrow> exn \<Rightarrow> response" where
  "not_found_handler request exc =
     JSONResponse 404 (JObj [(''detail'', JStr ''Resource not found'')])"

definition internal_error_handler :: "request \<Rightarrow> exn \<Rightarrow> response" where
  "internal_error_handler request exc =
     JSONResponse 500 (JObj [(''detail'', JStr ''Internal server error'')])"

subsection \<open>Routing\<close>

text \<open>
  The decorators register the routes with the framework, which compiles each path to a
  regular expression: the literal text, \<^verbatim>\<open>[^/]+\<close> for each named placeholder, and
  a final \<^verbatim>\<open>$\<close>, which in Python matches at the end of the text and also before a
  final newline. In every route a placeholder is followed by a slash or by the end, so the
  greedy match of a placeholder is the longest run of characters other than the slash.
\<close>

datatype piece = Lit string | Param string

fun strip_prefix :: "string \<Rightarrow> string \<Rightarrow> string option" where
  "strip_prefix [] s = Some s"
| "strip_prefix (c # cs) [] = None"
| "strip_prefix (c # cs) (d # ds) = (if c = d then strip_prefix cs ds else None)"

fun match_path :: "piece list \<Rightarrow> string \<Rightarrow> pairs option" where
  "match_path [] s = (if s = [] \<or> s = [CHR 0x0A] then Some [] else None)"
| "match_path (Lit l # ps) s =
     (case strip_prefix l s of None \<Rightarrow> None | Some rest \<Rightarrow> match_path ps rest)"
| "match_path (Param name # ps) s =
     (let v = takeWhile (\<lambda>c. c \<noteq> CHR ''/'') s
      in if v = [] then None
         else map_option (\<lambda>m. (name, v) # m)
                (match_path ps (dropWhile (\<lambda>c. c \<noteq> CHR ''/'') s)))"

datatype endpoint =
    EP_framework
  | EP_root
  | EP_health
  | EP_tasks_route
  | EP_task_by_id_route
  | EP_task_status_route
  | EP_users_route
  | EP_projects_route

record route =
  route_path :: "piece list"
  route_methods :: "string list"
  route_endpoint :: endpoint

text \<open>
  The routes in the order of registration. The first four are the documentation routes
  that the application object registers on its own when it is created with the default
  settings; the others are the decorated functions of the file, with the methods given
  there.
\<close>

definition routes :: "route list" where
  "routes =
     [\<lparr>route_path = [Lit ''/openapi.json''], route_methods = [''GET'', ''HEAD''],
        route_endpoint = EP_framework\<rparr>,
      \<lparr>route_path = [Lit ''/docs''], route_methods = [''GET'', ''HEAD''],
        route_endpoint = EP_framework\<rparr>,
      \<lparr>route_path = [Lit ''/docs/oauth2-redirect''], route_methods = [''GET'', ''HEAD''],
        route_endpoint = EP_framework\<rparr>,
      \<lparr>route_path = [Lit ''/redoc''], route_methods = [''GET'', ''HEAD''],
        route_endpoint = EP_framework\<rparr>,
      \<lparr>route_path = [Lit ''/''], route_methods = [''GET''],
        route_endpoint = EP_root\<rparr>,
      \<lparr>route_path = [Lit ''/health''], route_methods = [''GET''],
        route_endpoint = EP_health\<rparr>,
      \<lparr>route_path = [Lit ''/tasks''], route_methods = [''GET'', ''POST''],
        route_endpoint = EP_tasks_route\<rparr>,
      \<lparr>route_path = [Lit ''/tasks/'', Param ''task_id''],
        route_methods = [''GET'', ''PUT'', ''PATCH'', ''DELETE''],
        route_endpoint = EP_task_by_id_route\<rparr>,
      \<lparr>route_path = [Lit ''/tasks/'', Param ''task_id'', Lit ''/status''],
        route_methods = [''PATCH''],
        route_endpoint = EP_task_status_route\<rparr>,
      \<lparr>route_path = [Lit ''/users''], route_methods = [''GET'', ''POST''],
        route_endpoint = EP_users_route\<rparr>,
      \<lparr>route_path = [Lit ''/projects''], route_methods = [''GET'', ''POST''],
        route_endpoint = EP_projects_route\<rparr>]"

datatype match_kind = NoMatch | PartialMatch | FullMatch

text \<open>
  A route matches a request fully when its path matches and it allows the method,
  partially when only the path matches.
\<close>

definition matches :: "route \<Rightarrow> string \<Rightarrow> string \<Rightarrow> match_kind \<times> pairs" where
  "matches r method path =
     (case match_path (route_path r) path of
        None \<Rightarrow> (NoMatch, [])
      | Some path_params \<Rightarrow>
          if method \<in> set (route_methods r) then (FullMatch, path_params)
          else (PartialMatch, path_params))"

fun first_match :: "match_kind \<Rightarrow> route list \<Rightarrow> string \<Rightarrow> string \<Rightarrow> (route \<times> pairs) option" where
  "first_match m [] method path = None"
| "first_match m (r # rs) method path =
     (case matches r method path of
        (m', path_params) \<Rightarrow>
          if m' = m then Some (r, path_params) else first_match m rs method path)"

text \<open>
  The conversion of a path parameter that the handler declares as \<^verbatim>\<open>int\<close> belongs
  to the framework's validation library, not to the gateway: it is the parameter \<open>conv\<close>
  of the dispatch, which gives the integer of a text or \<open>None\<close> for a text that it
  rejects. A text that does not convert is rejected by the framework before the handler
  runs.
\<close>

type_synonym int_conversion = "string \<Rightarrow> int option"

text \<open>
  Running the endpoint of a fully matched route: the framework validates the declared
  path parameters, calls the function, and turns a returned dictionary into a JSON
  response with status 200.
\<close>

definition with_task_id ::
  "int_conversion \<Rightarrow> pairs \<Rightarrow> outbound_call list
     \<Rightarrow> (int \<Rightarrow> (exn + response) \<times> outbound_call list)
     \<Rightarrow> (exn + response) \<times> outbound_call list" where
  "with_task_id conv path_params log f =
     (case map_of path_params ''task_id'' of
        None \<Rightarrow> (Inl (RequestValidationError ''task_id''), log)
      | Some v \<Rightarrow>
          (case conv v of
             None \<Rightarrow> (Inl (RequestValidationError ''task_id''), log)
           | Some task_id \<Rightarrow> f task_id))"

fun run_endpoint ::
  "int_conversion \<Rightarrow> settings \<Rightarrow> network \<Rightarrow> endpoint \<Rightarrow> pairs \<Rightarrow> request \<Rightarrow> outbound_call list
     \<Rightarrow> (exn + response) \<times> outbound_call list" where
  "run_endpoint conv cfg net EP_framework path_params request log = (Inr FrameworkPage, log)"
| "run_endpoint conv cfg net EP_root path_params request log = (Inr (JSONResponse 200 (root cfg)), log)"
| "run_endpoint conv cfg net EP_health path_params request log =
     (case health cfg net log of (report, log') \<Rightarrow> (Inr (JSONResponse 200 report), log'))"
| "run_endpoint conv cfg net EP_tasks_route path_params request log = tasks_route cfg net request log"
| "run_endpoint conv cfg net EP_task_by_id_route path_params request log =
     with_task_id conv path_params log (\<lambda>task_id. task_by_id_route cfg net request task_id log)"
| "run_endpoint conv cfg net EP_task_status_route path_params request log =
     with_task_id conv path_params log (\<lambda>task_id. task_status_route cfg net request task_id log)"
| "run_endpoint conv cfg net EP_users_route path_params request log = (Inr (users_route request), log)"
| "run_endpoint conv cfg net EP_projects_route path_params request log =
     (Inr (projects_route request), log)"

text \<open>\<^verbatim>\<open>path.rstrip("/")\<close>, and the path with its trailing slash toggled.\<close>

definition rstrip_slash :: "string \<Rightarrow> string" where
  "rstrip_slash s = rev (dropWhile (\<lambda>c. c = CHR ''/'') (rev s))"

definition redirect_path :: "string \<Rightarrow> string" where
  "redirect_path p = (if p \<noteq> [] \<and> last p = CHR ''/'' then rstrip_slash p else p @ ''/'')"

text \<open>
  The router: the first full match runs its endpoint; failing that, the first partial
  match answers 405; failing that, a path that some route matches once its trailing slash
  is toggled is redirected there; anything else is 404.
\<close>

definition router ::
  "int_conversion \<Rightarrow> settings \<Rightarrow> network \<Rightarrow> request \<Rightarrow> outbound_call list
     \<Rightarrow> (exn + response) \<times> outbound_call list" where
  "router conv cfg net request log =
     (case first_match FullMatch routes (req_method request) (req_path request) of
        Some (r, path_params) \<Rightarrow>
          run_endpoint conv cfg net (route_endpoint r) path_params request log
      | None \<Rightarrow>
          (case first_match PartialMatch routes (req_method request) (req_path request) of
             Some (r, path_params) \<Rightarrow> (Inl (HTTPException 405 ''Method Not Allowed''), log)
           | None \<Rightarrow>
               if req_path request \<noteq> ''/'' \<and>
                  list_ex (\<lambda>r. fst (matches r (req_method request)
                                       (redirect_path (req_path request))) \<noteq> NoMatch) routes
               then (Inr (RedirectResponse (redirect_path (req_path request))), log)
               else (Inl (HTTPException 404 ''Not Found''), log)))"

text \<open>
  The exception handlers: the handler registered for status 404 answers every
  \<^verbatim>\<open>HTTPException\<close> with that status, the framework's default handler answers the
  others with the exception's status and \<^verbatim>\<open>{"detail": detail}\<close>, a failed
  validation is answered with 422, and the handler registered for status 500 answers an
  exception that is not an \<^verbatim>\<open>HTTPException\<close>.
\<close>

fun exception_response :: "request \<Rightarrow> exn \<Rightarrow> response" where
  "exception_response request (HTTPException status detail) =
     (if status = 404 then not_found_handler request (HTTPException status detail)
      else JSONResponse status (JObj [(''detail'', JStr detail)]))"
| "exception_response request (RequestValidationError name) = UnprocessableEntity name"
| "exception_response request ValueError = internal_error_handler request ValueError"

definition respond :: "request \<Rightarrow> (exn + response) \<Rightarrow> response" where
  "respond request r = (case r of Inl e \<Rightarrow> exception_response request e | Inr resp \<Rightarrow> resp)"

text \<open>
  The application: the CORS middleware answers a preflight request (an \<^verbatim>\<open>OPTIONS\<close>
  request with an \<^verbatim>\<open>origin\<close> and an \<^verbatim>\<open>access-control-request-method\<close> header)
  itself; every other request goes to the router, and what the router raises goes to the
  exception handlers.
\<close>

definition is_preflight :: "request \<Rightarrow> bool" where
  "is_preflight request =
     (headers_getitem (req_headers request) ''origin'' \<noteq> None \<and>
      req_method request = ''OPTIONS'' \<and>
      ''access-control-request-method'' \<in> set (map fst (req_headers request)))"

definition app ::
  "int_conversion \<Rightarrow> settings \<Rightarrow> network \<Rightarrow> request \<Rightarrow> outbound_call list
     \<Rightarrow> response \<times> outbound_call list" where
  "app conv cfg net request log =
     (if is_preflight request then (PreflightResponse, log)
      else case router conv cfg net request log of (r, log') \<Rightarrow> (respond request r, log'))"

subsection \<open>Observations and example inputs\<close>

text \<open>The call that \<^verbatim>\<open>forward_request\<close> hands to the client.\<close>

definition forward_call ::
  "string \<Rightarrow> string \<Rightarrow> string \<Rightarrow> request \<Rightarrow> string option \<Rightarrow> outbound_call" where
  "forward_call service_url path method request body =
     \<lparr>call_timeout = 30, call_method = method, call_url = service_url @ path,
      call_headers = dict_pop (dict_of_headers (req_headers request)) ''host'',
      call_content = body,
      call_params = dict_of_query_params (req_query_params request)\<rparr>"

fun json_get :: "json \<Rightarrow> string \<Rightarrow> json option" where
  "json_get (JObj kvs) k = map_of kvs k"
| "json_get (JStr s) k = None"

fun json_keys :: "json \<Rightarrow> string list" where
  "json_keys (JObj kvs) = map fst kvs"
| "json_keys (JStr s) = []"

definition service_status :: "json \<Rightarrow> string \<Rightarrow> json option" where
  "service_status report name =
     (case json_get report ''services'' of
        Some services \<Rightarrow> json_get services name
      | None \<Rightarrow> None)"

definition example_settings :: settings where
  "example_settings =
     \<lparr>TASK_SERVICE_URL = ''http://localhost:8003'', USER_SERVICE_URL = ''http://localhost:8004'',
      PROJECT_SERVICE_URL = ''http://localhost:8005''\<rparr>"

definition example_request :: "string \<Rightarrow> string \<Rightarrow> request" where
  "example_request m p =
     \<lparr>req_method = m, req_path = p,
      req_headers = [(''host'', ''gateway''), (''accept'', ''application/json'')],
      req_query_params = [(''status'', ''todo''), (''limit'', ''5'')],
      req_body = ''{}''\<rparr>"

definition backend_ok :: network where
  "backend_ok c =
     Inr \<lparr>resp_status_code = 200, resp_content = ''[]'',
          resp_headers = [(''content-type'', decode_latin1 ''application/json'')]\<rparr>"

text \<open>
  An example of a conversion to \<^verbatim>\<open>int\<close>, for the concrete requests below: it
  converts the decimal literals, digits with an optional sign, and rejects every other
  text. The conversion of the framework converts these literals to the same integers and
  rejects a text without any digit, such as \<^verbatim>\<open>abc\<close>, too; it accepts further
  forms, on which no statement below depends.
\<close>

definition is_digit :: "char \<Rightarrow> bool" where
  "is_digit c = (48 \<le> (of_char c :: nat) \<and> (of_char c :: nat) \<le> 57)"

definition nat_of_digits :: "string \<Rightarrow> nat" where
  "nat_of_digits ds = foldl (\<lambda>a c. 10 * a + (of_char c - 48)) 0 ds"

definition decimal_int :: int_conversion where
  "decimal_int s =
     (case s of
        [] \<Rightarrow> None
      | c # ds \<Rightarrow>
          if c = CHR ''-'' then
            (if ds \<noteq> [] \<and> list_all is_digit ds then Some (- int (nat_of_digits ds)) else None)
          else if c = CHR ''+'' then
            (if ds \<noteq> [] \<and> list_all is_digit ds then Some (int (nat_of_digits ds)) else None)
          else
            (if list_all is_digit s then Some (int (nat_of_digits s)) else None))"

text \<open>
  A request that repeats a query key and a header name, a backend that sets two cookies,
  and a backend that answers 200 with a header value holding the euro sign.
\<close>

definition request_with_repeats :: request where
  "request_with_repeats =
     \<lparr>req_method = ''GET'', req_path = ''/tasks'',
      req_headers = [(''host'', ''gateway''), (''accept'', ''text/html''),
                     (''accept'', ''application/json'')],
      req_query_params = [(''tag'', ''a''), (''tag'', ''b'')],
      req_body = ''''\<rparr>"

definition backend_two_cookies :: network where
  "backend_two_cookies c =
     Inr \<lparr>resp_status_code = 200, resp_content = ''[]'',
          resp_headers = [(''set-cookie'', decode_latin1 ''a=1''),
                          (''set-cookie'', decode_latin1 ''b=2'')]\<rparr>"

definition backend_euro :: network where
  "backend_euro c =
     Inr \<lparr>resp_status_code = 200, resp_content = ''[]'',
          resp_headers = [(''content-type'', decode_latin1 ''application/json''),
                          (''x-price'', [53, 32, 8364])]\<rparr>"

section \<open>Properties\<close>

subsection \<open>What the forwarder and the health check compute\<close>

lemma forward_request_fst:
  "fst (forward_request net service_url path method request body log) =
     (case net (forward_call service_url path method request body) of
        Inr response \<Rightarrow>
          (case Response_init (resp_content response) (resp_status_code response)
                  (dict_of_httpx_headers (resp_headers response))
                  (httpx_headers_get (resp_headers response) ''content-type'') of
             Inr r \<Rightarrow> Inr r
           | Inl msg \<Rightarrow> Inl (HTTPException 500 (''Gateway error: '' @ msg)))
      | Inl ConnectError \<Rightarrow> Inl (HTTPException 503 (''Service unavailable: '' @ service_url))
      | Inl (TimeoutException k) \<Rightarrow> Inl (HTTPException 504 (''Service timeout: '' @ service_url))
      | Inl (OtherException msg) \<Rightarrow> Inl (HTTPException 500 (''Gateway error: '' @ msg)))"
  by (simp add: forward_request_def forward_call_def client_request_def Let_def
      split: sum.splits client_error.splits)

lemma forward_request_snd:
  "snd (forward_request net service_url path method request body log) =
     log @ [forward_call service_url path method request body]"
  by (simp add: forward_request_def forward_call_def client_request_def Let_def
      split: sum.splits client_error.splits)

lemma health_fst:
  "fst (health cfg net log) =
     JObj [(''gateway'', JStr ''healthy''),
           (''services'', JObj [(''task-service'',
              JStr (case net (health_probe cfg) of
                      Inr response \<Rightarrow>
                        if resp_status_code response = 200 then ''healthy'' else ''unhealthy''
                    | Inl e \<Rightarrow> ''unreachable''))])]"
  by (simp add: health_def client_request_def Let_def split: sum.splits)

lemma health_snd: "snd (health cfg net log) = log @ [health_probe cfg]"
  by (simp add: health_def client_request_def Let_def split: sum.splits)

subsection \<open>The health report\<close>

text \<open>
  Claim C7. In the report of the health check, the task service is \<open>healthy\<close> exactly when
  its probe returned status 200, \<open>unhealthy\<close> exactly when the probe returned any other
  status, and \<open>unreachable\<close> exactly when the probe raised (a connection failure, a timeout
  or anything else); the entry \<open>gateway\<close> is \<open>healthy\<close> whatever the backend does. The
  probe goes to \<^verbatim>\<open>/health\<close> of the task service.
\<close>

theorem health_statuses:
  "(service_status (fst (health cfg net log)) ''task-service'' = Some (JStr ''healthy'') \<longleftrightarrow>
      (\<exists>response. net (health_probe cfg) = Inr response \<and> resp_status_code response = 200)) \<and>
   (service_status (fst (health cfg net log)) ''task-service'' = Some (JStr ''unhealthy'') \<longleftrightarrow>
      (\<exists>response. net (health_probe cfg) = Inr response \<and> resp_status_code response \<noteq> 200)) \<and>
   (service_status (fst (health cfg net log)) ''task-service'' = Some (JStr ''unreachable'') \<longleftrightarrow>
      (\<exists>e. net (health_probe cfg) = Inl e)) \<and>
   json_get (fst (health cfg net log)) ''gateway'' = Some (JStr ''healthy'') \<and>
   call_url (health_probe cfg) = TASK_SERVICE_URL cfg @ ''/health''"
proof (cases "net (health_probe cfg)")
  case (Inl e)
  then show ?thesis by (simp add: health_fst service_status_def health_probe_def)
next
  case (Inr response)
  then show ?thesis by (simp add: health_fst service_status_def health_probe_def)
qed

subsection \<open>Transport failures of the forwarder\<close>

text \<open>
  Claim C1. When the client cannot connect (\<^verbatim>\<open>ConnectError\<close>) the forwarded request is
  answered with 503 and \<^verbatim>\<open>{"detail": "Service unavailable: <base URL>"}\<close>; when the
  client, created with a timeout of 30 seconds, times out, with 504 and
  \<^verbatim>\<open>{"detail": "Service timeout: <base URL>"}\<close>; on any other exception with 500 and
  \<^verbatim>\<open>{"detail": "Gateway error: <message>"}\<close>. The forwarder raises nothing else.
\<close>

theorem forward_request_failures:
  "(net (forward_call service_url path verb request body) = Inl ConnectError \<longrightarrow>
      respond request (fst (forward_request net service_url path verb request body log)) =
        JSONResponse 503 (JObj [(''detail'', JStr (''Service unavailable: '' @ service_url))])) \<and>
   (net (forward_call service_url path verb request body) = Inl (TimeoutException k) \<longrightarrow>
      respond request (fst (forward_request net service_url path verb request body log)) =
        JSONResponse 504 (JObj [(''detail'', JStr (''Service timeout: '' @ service_url))])) \<and>
   (net (forward_call service_url path verb request body) = Inl (OtherException msg) \<longrightarrow>
      respond request (fst (forward_request net service_url path verb request body log)) =
        JSONResponse 500 (JObj [(''detail'', JStr (''Gateway error: '' @ msg))])) \<and>
   call_timeout (forward_call service_url path verb request body) = 30 \<and>
   (fst (forward_request net service_url path verb request body log) = Inl e \<longrightarrow>
      e = HTTPException 503 (''Service unavailable: '' @ service_url) \<or>
      e = HTTPException 504 (''Service timeout: '' @ service_url) \<or>
      (\<exists>m. e = HTTPException 500 (''Gateway error: '' @ m)))"
proof -
  let ?c = "forward_call service_url path verb request body"
  let ?r = "fst (forward_request net service_url path verb request body log)"
  have c1: "net ?c = Inl ConnectError \<longrightarrow>
      respond request ?r =
        JSONResponse 503 (JObj [(''detail'', JStr (''Service unavailable: '' @ service_url))])"
    by (simp add: forward_request_fst respond_def)
  have c2: "net ?c = Inl (TimeoutException k) \<longrightarrow>
      respond request ?r =
        JSONResponse 504 (JObj [(''detail'', JStr (''Service timeout: '' @ service_url))])"
    by (simp add: forward_request_fst respond_def)
  have c3: "net ?c = Inl (OtherException msg) \<longrightarrow>
      respond request ?r =
        JSONResponse 500 (JObj [(''detail'', JStr (''Gateway error: '' @ msg))])"
    by (simp add: forward_request_fst respond_def)
  have c4: "call_timeout ?c = 30"
    by (simp add: forward_call_def)
  have c5: "?r = Inl e \<longrightarrow>
      e = HTTPException 503 (''Service unavailable: '' @ service_url) \<or>
      e = HTTPException 504 (''Service timeout: '' @ service_url) \<or>
      (\<exists>m. e = HTTPException 500 (''Gateway error: '' @ m))"
  proof (cases "net ?c")
    case (Inr response)
    show ?thesis
    proof (cases "Response_init (resp_content response) (resp_status_code response)
                    (dict_of_httpx_headers (resp_headers response))
                    (httpx_headers_get (resp_headers response) ''content-type'')")
      case (Inr r)
      with \<open>net ?c = Inr response\<close> show ?thesis by (simp add: forward_request_fst)
    next
      case (Inl m)
      with \<open>net ?c = Inr response\<close>
      have "?r = Inl (HTTPException 500 (''Gateway error: '' @ m))"
        by (simp add: forward_request_fst)
      then show ?thesis by (metis Inl_inject)
    qed
  next
    case (Inl err)
    show ?thesis
    proof (cases err)
      case ConnectError
      with Inl have "?r = Inl (HTTPException 503 (''Service unavailable: '' @ service_url))"
        by (simp add: forward_request_fst)
      then show ?thesis by (metis Inl_inject)
    next
      case (TimeoutException k')
      with Inl have "?r = Inl (HTTPException 504 (''Service timeout: '' @ service_url))"
        by (simp add: forward_request_fst)
      then show ?thesis by (metis Inl_inject)
    next
      case (OtherException m)
      with Inl have "?r = Inl (HTTPException 500 (''Gateway error: '' @ m))"
        by (simp add: forward_request_fst)
      then show ?thesis by (metis Inl_inject)
    qed
  qed
  from c1 c2 c3 c4 c5 show ?thesis by (intro conjI)
qed

text \<open>The three failures at concrete requests.\<close>

theorem forward_request_failures_witness:
  "respond (example_request ''POST'' ''/tasks'')
     (fst (forward_request (\<lambda>c. Inl ConnectError) ''http://localhost:8003'' ''/tasks'' ''POST''
        (example_request ''POST'' ''/tasks'') (Some ''{}'') [])) =
     JSONResponse 503 (JObj [(''detail'', JStr ''Service unavailable: http://localhost:8003'')]) \<and>
   respond (example_request ''GET'' ''/tasks/42'')
     (fst (forward_request (\<lambda>c. Inl (TimeoutException ReadTimeout)) ''http://localhost:8003''
        ''/tasks/42'' ''GET'' (example_request ''GET'' ''/tasks/42'') None [])) =
     JSONResponse 504 (JObj [(''detail'', JStr ''Service timeout: http://localhost:8003'')]) \<and>
   respond (example_request ''GET'' ''/tasks'')
     (fst (forward_request (\<lambda>c. Inl (OtherException ''boom'')) ''http://localhost:8003''
        ''/tasks'' ''GET'' (example_request ''GET'' ''/tasks'') None [])) =
     JSONResponse 500 (JObj [(''detail'', JStr ''Gateway error: boom'')])"
proof -
  have a: "respond (example_request ''POST'' ''/tasks'')
     (fst (forward_request (\<lambda>c. Inl ConnectError) ''http://localhost:8003'' ''/tasks'' ''POST''
        (example_request ''POST'' ''/tasks'') (Some ''{}'') [])) =
     JSONResponse 503 (JObj [(''detail'', JStr ''Service unavailable: http://localhost:8003'')])"
    using forward_request_failures [where net = "\<lambda>c. Inl ConnectError"
      and service_url = "''http://localhost:8003''" and path = "''/tasks''" and verb = "''POST''"
      and request = "example_request ''POST'' ''/tasks''" and body = "Some ''{}''" and log = "[]"]
    by simp
  have b: "respond (example_request ''GET'' ''/tasks/42'')
     (fst (forward_request (\<lambda>c. Inl (TimeoutException ReadTimeout)) ''http://localhost:8003''
        ''/tasks/42'' ''GET'' (example_request ''GET'' ''/tasks/42'') None [])) =
     JSONResponse 504 (JObj [(''detail'', JStr ''Service timeout: http://localhost:8003'')])"
    using forward_request_failures [where net = "\<lambda>c. Inl (TimeoutException ReadTimeout)"
      and service_url = "''http://localhost:8003''" and path = "''/tasks/42''" and verb = "''GET''"
      and request = "example_request ''GET'' ''/tasks/42''" and body = None and log = "[]"
      and k = ReadTimeout]
    by simp
  have c: "respond (example_request ''GET'' ''/tasks'')
     (fst (forward_request (\<lambda>c. Inl (OtherException ''boom'')) ''http://localhost:8003''
        ''/tasks'' ''GET'' (example_request ''GET'' ''/tasks'') None [])) =
     JSONResponse 500 (JObj [(''detail'', JStr ''Gateway error: boom'')])"
    using forward_request_failures [where net = "\<lambda>c. Inl (OtherException ''boom'')"
      and service_url = "''http://localhost:8003''" and path = "''/tasks''" and verb = "''GET''"
      and request = "example_request ''GET'' ''/tasks''" and body = None and log = "[]"
      and msg = "''boom''"]
    by simp
  from a b c show ?thesis by (intro conjI)
qed

subsection \<open>Routing of fixed paths\<close>

lemma first_match_users:
  "verb = ''GET'' \<or> verb = ''POST'' \<Longrightarrow>
   first_match FullMatch routes verb ''/users'' =
     Some (\<lparr>route_path = [Lit ''/users''], route_methods = [''GET'', ''POST''],
            route_endpoint = EP_users_route\<rparr>, [])"
  by (auto simp add: routes_def matches_def)

lemma first_match_projects:
  "verb = ''GET'' \<or> verb = ''POST'' \<Longrightarrow>
   first_match FullMatch routes verb ''/projects'' =
     Some (\<lparr>route_path = [Lit ''/projects''], route_methods = [''GET'', ''POST''],
            route_endpoint = EP_projects_route\<rparr>, [])"
  by (auto simp add: routes_def matches_def)

lemma not_preflight:
  "req_method request \<noteq> ''OPTIONS'' \<Longrightarrow> \<not> is_preflight request"
  by (simp add: is_preflight_def)

lemma first_match_health:
  "first_match FullMatch routes ''GET'' ''/health'' =
     Some (\<lparr>route_path = [Lit ''/health''], route_methods = [''GET''],
            route_endpoint = EP_health\<rparr>, [])"
  by (simp add: routes_def matches_def)

subsection \<open>The placeholder routes\<close>

text \<open>
  Claim C3. A \<^verbatim>\<open>GET\<close> or \<^verbatim>\<open>POST\<close> request to \<^verbatim>\<open>/users\<close> is answered with 501 and
  \<^verbatim>\<open>{"detail": "User service not implemented yet"}\<close>, one to \<^verbatim>\<open>/projects\<close> with 501
  and \<^verbatim>\<open>{"detail": "Project service not implemented yet"}\<close>; in both cases the log of
  outbound calls is unchanged: no call is issued.
\<close>

theorem placeholder_routes_501:
  "(req_method request = ''GET'' \<or> req_method request = ''POST'') \<Longrightarrow>
   (req_path request = ''/users'' \<longrightarrow>
      app conv cfg net request log =
        (JSONResponse 501 (JObj [(''detail'', JStr ''User service not implemented yet'')]), log)) \<and>
   (req_path request = ''/projects'' \<longrightarrow>
      app conv cfg net request log =
        (JSONResponse 501 (JObj [(''detail'', JStr ''Project service not implemented yet'')]), log))"
proof -
  assume m: "req_method request = ''GET'' \<or> req_method request = ''POST''"
  then have np: "\<not> is_preflight request" by (auto simp: is_preflight_def)
  have u: "req_path request = ''/users'' \<longrightarrow>
      app conv cfg net request log =
        (JSONResponse 501 (JObj [(''detail'', JStr ''User service not implemented yet'')]), log)"
    using np first_match_users [OF m]
    by (simp add: app_def router_def respond_def users_route_def)
  have p: "req_path request = ''/projects'' \<longrightarrow>
      app conv cfg net request log =
        (JSONResponse 501 (JObj [(''detail'', JStr ''Project service not implemented yet'')]), log)"
    using np first_match_projects [OF m]
    by (simp add: app_def router_def respond_def projects_route_def)
  from u p show ?thesis by (intro conjI)
qed

text \<open>Both placeholder routes at concrete requests, starting from the empty log.\<close>

theorem placeholder_routes_501_witness:
  "app decimal_int example_settings backend_ok (example_request ''GET'' ''/users'') [] =
     (JSONResponse 501 (JObj [(''detail'', JStr ''User service not implemented yet'')]), []) \<and>
   app decimal_int example_settings backend_ok (example_request ''POST'' ''/projects'') [] =
     (JSONResponse 501 (JObj [(''detail'', JStr ''Project service not implemented yet'')]), [])"
  using placeholder_routes_501 [of "example_request ''GET'' ''/users''" decimal_int example_settings
      backend_ok "[]"]
    placeholder_routes_501 [of "example_request ''POST'' ''/projects''" decimal_int example_settings
      backend_ok "[]"]
  by (simp add: example_request_def)

subsection \<open>The services of the health report\<close>

text \<open>
  Claim C10. The \<open>services\<close> object of every health report has exactly the key
  \<open>task-service\<close>; the health check issues exactly one call, the probe of the task
  service, so the user and project backends are never probed; and this report is what a
  \<^verbatim>\<open>GET /health\<close> request returns, with status 200.
\<close>

theorem health_services_keys:
  "(\<exists>services. json_get (fst (health cfg net log)) ''services'' = Some services \<and>
      set (json_keys services) = {''task-service''}) \<and>
   snd (health cfg net log) = log @ [health_probe cfg] \<and>
   call_url (health_probe cfg) = TASK_SERVICE_URL cfg @ ''/health'' \<and>
   (req_method request = ''GET'' \<and> req_path request = ''/health'' \<longrightarrow>
      app conv cfg net request log = (JSONResponse 200 (fst (health cfg net log)), log @ [health_probe cfg]))"
proof -
  have a: "\<exists>services. json_get (fst (health cfg net log)) ''services'' = Some services \<and>
      set (json_keys services) = {''task-service''}"
    by (simp add: health_fst)
  have b: "call_url (health_probe cfg) = TASK_SERVICE_URL cfg @ ''/health''"
    by (simp add: health_probe_def)
  have c: "req_method request = ''GET'' \<and> req_path request = ''/health'' \<longrightarrow>
      app conv cfg net request log = (JSONResponse 200 (fst (health cfg net log)), log @ [health_probe cfg])"
  proof
    assume h: "req_method request = ''GET'' \<and> req_path request = ''/health''"
    then have np: "\<not> is_preflight request" by (simp add: is_preflight_def)
    obtain report log' where hl: "health cfg net log = (report, log')" by (cases "health cfg net log")
    from hl have "log' = log @ [health_probe cfg]" using health_snd [of cfg net log] by simp
    with hl np h first_match_health show "app conv cfg net request log =
        (JSONResponse 200 (fst (health cfg net log)), log @ [health_probe cfg])"
      by (simp add: app_def router_def respond_def)
  qed
  from a health_snd b c show ?thesis by (intro conjI)
qed

text \<open>The report of \<^verbatim>\<open>GET /health\<close> with a task service that answers 200.\<close>

theorem health_services_keys_witness:
  "app decimal_int example_settings backend_ok (example_request ''GET'' ''/health'') [] =
     (JSONResponse 200
        (JObj [(''gateway'', JStr ''healthy''),
               (''services'', JObj [(''task-service'', JStr ''healthy'')])]),
      [\<lparr>call_timeout = 5, call_method = ''GET'', call_url = ''http://localhost:8003/health'',
        call_headers = [], call_content = None, call_params = []\<rparr>])"
  using health_services_keys [of example_settings backend_ok "[]" "example_request ''GET'' ''/health''"
      decimal_int]
  by (simp add: example_request_def health_fst health_probe_def backend_ok_def example_settings_def)

subsection \<open>Dictionaries built from multi-dictionaries\<close>

lemma map_of_dict_set: "map_of (dict_set d k v) = (map_of d)(k \<mapsto> v)"
  by (induction d k v rule: dict_set.induct) (auto simp: fun_eq_iff)

lemma keys_dict_set:
  "map fst (dict_set d k v) = (if k \<in> set (map fst d) then map fst d else map fst d @ [k])"
  by (induction d k v rule: dict_set.induct) auto

lemma distinct_dict_set: "distinct (map fst d) \<Longrightarrow> distinct (map fst (dict_set d k v))"
  by (simp add: keys_dict_set)

lemma dict_set_fresh: "k \<notin> fst ` set d \<Longrightarrow> dict_set d k v = d @ [(k, v)]"
  by (induction d k v rule: dict_set.induct) auto

lemma dict_pop_filter: "dict_pop d k = filter (\<lambda>(k', v). k' \<noteq> k) d"
  by (induction d k rule: dict_pop.induct) auto

lemma map_of_dict_pop: "map_of (dict_pop d k) = (map_of d)(k := None)"
  by (induction d k rule: dict_pop.induct) (auto simp: fun_eq_iff)

lemma distinct_dict_pop: "distinct (map fst d) \<Longrightarrow> distinct (map fst (dict_pop d k))"
  by (simp add: dict_pop_filter distinct_map_filter)

lemma foldl_query_distinct:
  "distinct (map fst acc) \<Longrightarrow> distinct (map fst (foldl (\<lambda>d (k, v). dict_set d k v) acc xs))"
  by (induction xs arbitrary: acc) (auto simp: distinct_dict_set)

lemma foldl_query_map_of:
  "map_of (foldl (\<lambda>d (k, v). dict_set d k v) acc xs) = map_of acc ++ map_of (rev xs)"
proof (induction xs arbitrary: acc)
  case Nil
  then show ?case by simp
next
  case (Cons x xs)
  obtain k v where x: "x = (k, v)" by (cases x)
  have "map_of (foldl (\<lambda>d (k, v). dict_set d k v) (dict_set acc k v) xs) =
          map_of (dict_set acc k v) ++ map_of (rev xs)"
    by (rule Cons.IH)
  also have "\<dots> = map_of acc ++ map_of (rev xs @ [(k, v)])"
    by (simp add: map_of_dict_set fun_eq_iff map_add_def split: option.splits)
  finally show ?case using x by simp
qed

lemma foldl_query_id:
  "distinct (map fst (acc @ xs)) \<Longrightarrow> foldl (\<lambda>d (k, v). dict_set d k v) acc xs = acc @ xs"
proof (induction xs arbitrary: acc)
  case Nil
  then show ?case by simp
next
  case (Cons x xs)
  obtain k v where x: "x = (k, v)" by (cases x)
  from Cons.prems x have fresh: "k \<notin> fst ` set acc" by auto
  from Cons.prems x have "distinct (map fst ((acc @ [(k, v)]) @ xs))" by auto
  from Cons.IH [OF this] show ?case using x fresh by (simp add: dict_set_fresh)
qed

lemma dict_of_query_params_distinct: "distinct (map fst (dict_of_query_params q))"
  unfolding dict_of_query_params_def by (rule foldl_query_distinct) simp

lemma dict_of_query_params_last: "map_of (dict_of_query_params q) = map_of (rev q)"
  unfolding dict_of_query_params_def by (simp add: foldl_query_map_of)

lemma dict_of_query_params_id: "distinct (map fst q) \<Longrightarrow> dict_of_query_params q = q"
  unfolding dict_of_query_params_def using foldl_query_id [of "[]" q] by simp

lemma foldl_lookup_distinct:
  "distinct (map fst acc) \<Longrightarrow>
   distinct (map fst (foldl (\<lambda>d k. case g k of Some v \<Rightarrow> dict_set d k v | None \<Rightarrow> d) acc ks))"
proof (induction ks arbitrary: acc)
  case Nil
  then show ?case by simp
next
  case (Cons k ks)
  show ?case
  proof (cases "g k")
    case None
    with Cons show ?thesis by simp
  next
    case (Some v)
    from Cons.prems have "distinct (map fst (dict_set acc k v))" by (rule distinct_dict_set)
    from Cons.IH [OF this] Some show ?thesis by simp
  qed
qed

lemma foldl_lookup_map_of:
  "map_of (foldl (\<lambda>d k. case g k of Some v \<Rightarrow> dict_set d k v | None \<Rightarrow> d) acc ks) k =
     (if k \<in> set ks \<and> g k \<noteq> None then g k else map_of acc k)"
proof (induction ks arbitrary: acc)
  case Nil
  then show ?case by simp
next
  case (Cons a ks)
  show ?case
  proof (cases "g a")
    case None
    with Cons.IH [of acc] show ?thesis by auto
  next
    case (Some v)
    with Cons.IH [of "dict_set acc a v"] show ?thesis by (auto simp: map_of_dict_set)
  qed
qed

lemma foldl_lookup_id:
  "distinct (map fst (acc @ xs)) \<Longrightarrow> (\<And>k v. (k, v) \<in> set xs \<Longrightarrow> g k = Some v) \<Longrightarrow>
   foldl (\<lambda>d k. case g k of Some v \<Rightarrow> dict_set d k v | None \<Rightarrow> d) acc (map fst xs) = acc @ xs"
proof (induction xs arbitrary: acc)
  case Nil
  then show ?case by simp
next
  case (Cons x xs)
  obtain k v where x: "x = (k, v)" by (cases x)
  from Cons.prems(1) x have fresh: "k \<notin> fst ` set acc" by auto
  from Cons.prems(2) x have g: "g k = Some v" by simp
  from Cons.prems(1) x have d: "distinct (map fst ((acc @ [(k, v)]) @ xs))" by auto
  have "foldl (\<lambda>d k. case g k of Some v \<Rightarrow> dict_set d k v | None \<Rightarrow> d) (acc @ [(k, v)]) (map fst xs) =
          (acc @ [(k, v)]) @ xs"
    using d Cons.prems(2) by (intro Cons.IH) auto
  then show ?case using x fresh g by (simp add: dict_set_fresh)
qed

lemma dict_of_headers_distinct: "distinct (map fst (dict_of_headers hs))"
  unfolding dict_of_headers_def by (rule foldl_lookup_distinct) simp

lemma dict_of_headers_first: "map_of (dict_of_headers hs) = map_of hs"
proof
  fix k
  show "map_of (dict_of_headers hs) k = map_of hs k"
  proof (cases "map_of hs k")
    case None
    then show ?thesis
      unfolding dict_of_headers_def headers_getitem_def by (simp add: foldl_lookup_map_of)
  next
    case (Some v)
    then have "k \<in> set (map fst hs)" by (metis map_of_eq_None_iff option.distinct(1) set_map)
    with Some show ?thesis
      unfolding dict_of_headers_def headers_getitem_def by (simp add: foldl_lookup_map_of)
  qed
qed

lemma dict_of_headers_id: "distinct (map fst hs) \<Longrightarrow> dict_of_headers hs = hs"
proof -
  assume d: "distinct (map fst hs)"
  have "foldl (\<lambda>d k. case map_of hs k of Some v \<Rightarrow> dict_set d k v | None \<Rightarrow> d) [] (map fst hs) = [] @ hs"
    using d by (intro foldl_lookup_id) auto
  then show ?thesis by (simp add: dict_of_headers_def headers_getitem_def)
qed

lemma filter_key_single:
  "distinct (map fst hs) \<Longrightarrow> (k, v) \<in> set hs \<Longrightarrow> filter (\<lambda>(k', v'). k' = k) hs = [(k, v)]"
proof (induction hs)
  case Nil
  then show ?case by simp
next
  case (Cons h hs)
  obtain k' v' where h: "h = (k', v')" by (cases h)
  show ?case
  proof (cases "k' = k")
    case True
    with Cons.prems h have "(k, v) = (k', v')" by (auto simp: image_iff)
    moreover from Cons.prems h True have "filter (\<lambda>(k', v'). k' = k) hs = []"
      by (auto simp: filter_empty_conv image_iff)
    ultimately show ?thesis using h by simp
  next
    case False
    with Cons h show ?thesis by auto
  qed
qed

lemma httpx_headers_get_single:
  "distinct (map fst hs) \<Longrightarrow> (k, v) \<in> set hs \<Longrightarrow> httpx_headers_get hs k = Some v"
  by (simp add: httpx_headers_get_def filter_key_single)

lemma dict_of_httpx_headers_distinct: "distinct (map fst (dict_of_httpx_headers hs))"
  unfolding dict_of_httpx_headers_def by (rule foldl_lookup_distinct) simp

lemma dict_of_httpx_headers_id: "distinct (map fst hs) \<Longrightarrow> dict_of_httpx_headers hs = hs"
proof -
  assume d: "distinct (map fst hs)"
  have "foldl (\<lambda>d k. case httpx_headers_get hs k of Some v \<Rightarrow> dict_set d k v | None \<Rightarrow> d) []
          (map fst hs) = [] @ hs"
    using d by (intro foldl_lookup_id) (auto simp: httpx_headers_get_single)
  then show ?thesis by (simp add: dict_of_httpx_headers_def)
qed

lemma dict_of_httpx_headers_lookup:
  "map_of (dict_of_httpx_headers hs) k = httpx_headers_get hs k"
proof (cases "k \<in> set (map fst hs)")
  case True
  then show ?thesis
    unfolding dict_of_httpx_headers_def by (simp add: foldl_lookup_map_of)
next
  case False
  then have "filter (\<lambda>(k', v). k' = k) hs = []"
    by (auto simp: filter_empty_conv image_iff)
  then have "httpx_headers_get hs k = None" by (simp add: httpx_headers_get_def)
  with False show ?thesis
    unfolding dict_of_httpx_headers_def by (simp add: foldl_lookup_map_of)
qed

subsection \<open>Encoding of header values\<close>

lemma is_latin1_decode: "is_latin1 (decode_latin1 s)"
  by (simp add: is_latin1_def decode_latin1_def list_all_iff nat_of_char_less_256)

lemma encode_decode_latin1: "encode_latin1 (decode_latin1 s) = Inr s"
proof -
  have "map char_of (map (of_char :: char \<Rightarrow> nat) s) = s"
    by (induction s) simp_all
  then show ?thesis by (simp add: encode_latin1_def is_latin1_decode) (simp add: decode_latin1_def)
qed

lemma encode_headers_ok:
  "\<forall>v\<in>snd ` set d. is_latin1 v \<Longrightarrow>
   encode_headers d = Inr (map (\<lambda>(k, v). (lower k, map char_of v)) d)"
proof (induction d)
  case Nil
  then show ?case by simp
next
  case (Cons x d)
  obtain k v where x: "x = (k, v)" by (cases x)
  from Cons.prems x have v: "is_latin1 v" by simp
  from Cons.prems have "\<forall>v\<in>snd ` set d. is_latin1 v" by simp
  with Cons.IH have "encode_headers d = Inr (map (\<lambda>(k, v). (lower k, map char_of v)) d)" by simp
  with x v show ?case by (simp add: encode_latin1_def)
qed

lemma encode_headers_fail:
  "\<not> (\<forall>v\<in>snd ` set d. is_latin1 v) \<Longrightarrow>
   \<exists>v\<in>snd ` set d. \<not> is_latin1 v \<and> encode_headers d = Inl (unicode_encode_error v)"
proof (induction d)
  case Nil
  then show ?case by simp
next
  case (Cons x d)
  obtain k v where x: "x = (k, v)" by (cases x)
  show ?case
  proof (cases "is_latin1 v")
    case False
    with x have "encode_headers (x # d) = Inl (unicode_encode_error v)"
      by (simp add: encode_latin1_def)
    with False x show ?thesis by auto
  next
    case True
    with Cons.prems x have "\<not> (\<forall>v\<in>snd ` set d. is_latin1 v)" by simp
    from Cons.IH [OF this] obtain w where w: "w \<in> snd ` set d" "\<not> is_latin1 w"
      "encode_headers d = Inl (unicode_encode_error w)" by blast
    from True x w(3) have "encode_headers (x # d) = Inl (unicode_encode_error w)"
      by (simp add: encode_latin1_def)
    with w(1,2) show ?thesis by auto
  qed
qed

lemma is_latin1_join:
  "is_latin1 sep \<Longrightarrow> xs \<noteq> [] \<Longrightarrow> is_latin1 (join sep xs) = (\<forall>x\<in>set xs. is_latin1 x)"
  by (induction sep xs rule: join.induct) (auto simp: is_latin1_def)

lemma httpx_headers_get_latin1:
  "httpx_headers_get hs k = Some v \<Longrightarrow>
   is_latin1 v = (\<forall>(k', v')\<in>set hs. k' = k \<longrightarrow> is_latin1 v')"
proof -
  assume g: "httpx_headers_get hs k = Some v"
  let ?items = "map snd (filter (\<lambda>(k', v). k' = k) hs)"
  from g have ne: "?items \<noteq> []" and v: "v = join (decode_latin1 '', '') ?items"
    by (auto simp: httpx_headers_get_def Let_def split: if_splits)
  have "is_latin1 v = (\<forall>x\<in>set ?items. is_latin1 x)"
    unfolding v using is_latin1_decode ne by (rule is_latin1_join)
  also have "\<dots> = (\<forall>(k', v')\<in>set hs. k' = k \<longrightarrow> is_latin1 v')" by auto
  finally show ?thesis .
qed

lemma httpx_headers_get_member:
  "(k, v) \<in> set hs \<Longrightarrow> \<exists>w. httpx_headers_get hs k = Some w"
proof -
  assume "(k, v) \<in> set hs"
  then have "filter (\<lambda>(k', v). k' = k) hs \<noteq> []" by (auto simp: filter_empty_conv)
  then show ?thesis by (simp add: httpx_headers_get_def)
qed

lemma dict_of_httpx_headers_latin1:
  "(\<forall>v\<in>snd ` set (dict_of_httpx_headers hs). is_latin1 v) = (\<forall>v\<in>snd ` set hs. is_latin1 v)"
proof
  assume d: "\<forall>v\<in>snd ` set (dict_of_httpx_headers hs). is_latin1 v"
  show "\<forall>v\<in>snd ` set hs. is_latin1 v"
  proof
    fix v assume "v \<in> snd ` set hs"
    then obtain k where kv: "(k, v) \<in> set hs" by auto
    from httpx_headers_get_member [OF kv] obtain w where w: "httpx_headers_get hs k = Some w" ..
    then have "map_of (dict_of_httpx_headers hs) k = Some w"
      by (simp add: dict_of_httpx_headers_lookup)
    then have "(k, w) \<in> set (dict_of_httpx_headers hs)" by (rule map_of_SomeD)
    then have "w \<in> snd ` set (dict_of_httpx_headers hs)" by force
    with d have "is_latin1 w" by blast
    with httpx_headers_get_latin1 [OF w] kv show "is_latin1 v" by auto
  qed
next
  assume h: "\<forall>v\<in>snd ` set hs. is_latin1 v"
  show "\<forall>v\<in>snd ` set (dict_of_httpx_headers hs). is_latin1 v"
  proof
    fix w assume "w \<in> snd ` set (dict_of_httpx_headers hs)"
    then obtain k where kw: "(k, w) \<in> set (dict_of_httpx_headers hs)" by auto
    with dict_of_httpx_headers_distinct [of hs]
    have "map_of (dict_of_httpx_headers hs) k = Some w" by simp
    then have w: "httpx_headers_get hs k = Some w" by (simp add: dict_of_httpx_headers_lookup)
    have "\<forall>(k', v')\<in>set hs. k' = k \<longrightarrow> is_latin1 v'" using h by force
    with httpx_headers_get_latin1 [OF w] show "is_latin1 w" by simp
  qed
qed

subsection \<open>What the dispatch runs\<close>

lemma forward_request_pair:
  "forward_request net service_url path verb request body log =
     (fst (forward_request net service_url path verb request body log),
      log @ [forward_call service_url path verb request body])"
  using forward_request_snd [of net service_url path verb request body log]
  by (cases "forward_request net service_url path verb request body log") simp

lemma health_pair: "health cfg net log = (fst (health cfg net log), log @ [health_probe cfg])"
  using health_snd [of cfg net log] by (cases "health cfg net log") simp

lemma forward_call_not_probe: "forward_call service_url path verb request body \<noteq> health_probe cfg"
proof
  assume "forward_call service_url path verb request body = health_probe cfg"
  then have "call_timeout (forward_call service_url path verb request body) =
      call_timeout (health_probe cfg)" by simp
  then show False by (simp add: forward_call_def health_probe_def)
qed

lemma run_tasks_route:
  "run_endpoint conv cfg net EP_tasks_route ps request log =
     (fst (forward_request net (TASK_SERVICE_URL cfg) ''/tasks'' (req_method request) request
             (if req_method request = ''POST'' then Some (req_body request) else None) log),
      log @ [forward_call (TASK_SERVICE_URL cfg) ''/tasks'' (req_method request) request
               (if req_method request = ''POST'' then Some (req_body request) else None)])"
  by (simp add: tasks_route_def Let_def forward_request_pair [symmetric])

lemma run_task_by_id_route:
  "run_endpoint conv cfg net EP_task_by_id_route ps request log =
     (case map_of ps ''task_id'' of
        None \<Rightarrow> (Inl (RequestValidationError ''task_id''), log)
      | Some v \<Rightarrow>
          (case conv v of
             None \<Rightarrow> (Inl (RequestValidationError ''task_id''), log)
           | Some task_id \<Rightarrow>
               (case format_int task_id of
                  Inl e \<Rightarrow> (Inl e, log)
                | Inr s \<Rightarrow>
                    (fst (forward_request net (TASK_SERVICE_URL cfg) (''/tasks/'' @ s)
                            (req_method request) request
                            (if req_method request \<in> set [''PUT'', ''PATCH'']
                             then Some (req_body request) else None) log),
                     log @ [forward_call (TASK_SERVICE_URL cfg) (''/tasks/'' @ s)
                              (req_method request) request
                              (if req_method request \<in> set [''PUT'', ''PATCH'']
                               then Some (req_body request) else None)]))))"
  by (simp add: with_task_id_def task_by_id_route_def Let_def forward_request_pair [symmetric]
      split: option.splits sum.splits)

lemma run_task_status_route:
  "run_endpoint conv cfg net EP_task_status_route ps request log =
     (case map_of ps ''task_id'' of
        None \<Rightarrow> (Inl (RequestValidationError ''task_id''), log)
      | Some v \<Rightarrow>
          (case conv v of
             None \<Rightarrow> (Inl (RequestValidationError ''task_id''), log)
           | Some task_id \<Rightarrow>
               (case format_int task_id of
                  Inl e \<Rightarrow> (Inl e, log)
                | Inr s \<Rightarrow>
                    (fst (forward_request net (TASK_SERVICE_URL cfg) (''/tasks/'' @ s @ ''/status'')
                            (req_method request) request (Some (req_body request)) log),
                     log @ [forward_call (TASK_SERVICE_URL cfg) (''/tasks/'' @ s @ ''/status'')
                              (req_method request) request (Some (req_body request))]))))"
  by (simp add: with_task_id_def task_status_route_def Let_def forward_request_pair [symmetric]
      split: option.splits sum.splits)

lemma run_health:
  "run_endpoint conv cfg net EP_health ps request log =
     (Inr (JSONResponse 200 (fst (health cfg net log))), log @ [health_probe cfg])"
proof -
  obtain report log' where h: "health cfg net log = (report, log')" by (cases "health cfg net log")
  with health_snd [of cfg net log] have "log' = log @ [health_probe cfg]" by simp
  with h show ?thesis by simp
qed

text \<open>
  An endpoint that extends the log extends it by one call: the probe of the health check,
  or the call of the forwarder for the method of the request, with the body that the
  handler of the endpoint chooses.
\<close>

lemma run_endpoint_call:
  assumes "run_endpoint conv cfg net ep ps request log = (res, log @ [c])"
  shows "(ep = EP_health \<and> c = health_probe cfg) \<or>
         (\<exists>path body.
            c = forward_call (TASK_SERVICE_URL cfg) path (req_method request) request body \<and>
            res = fst (forward_request net (TASK_SERVICE_URL cfg) path (req_method request)
                         request body log) \<and>
            ((ep = EP_tasks_route \<and>
                body = (if req_method request = ''POST'' then Some (req_body request) else None)) \<or>
             (ep = EP_task_by_id_route \<and>
                body = (if req_method request \<in> set [''PUT'', ''PATCH'']
                        then Some (req_body request) else None)) \<or>
             (ep = EP_task_status_route \<and> body = Some (req_body request))))"
proof (cases ep)
  case EP_framework
  with assms show ?thesis by simp
next
  case EP_root
  with assms show ?thesis by simp
next
  case EP_health
  with assms show ?thesis by (simp add: run_health del: run_endpoint.simps)
next
  case EP_tasks_route
  with assms show ?thesis by (auto simp add: run_tasks_route simp del: run_endpoint.simps)
next
  case EP_task_by_id_route
  with assms show ?thesis
    by (auto simp add: run_task_by_id_route simp del: run_endpoint.simps
        split: option.splits sum.splits)
next
  case EP_task_status_route
  with assms show ?thesis
    by (auto simp add: run_task_status_route simp del: run_endpoint.simps
        split: option.splits sum.splits)
next
  case EP_users_route
  with assms show ?thesis by simp
next
  case EP_projects_route
  with assms show ?thesis by simp
qed

lemma run_endpoint_log:
  "snd (run_endpoint conv cfg net ep ps request log) = log \<or>
   (\<exists>c. snd (run_endpoint conv cfg net ep ps request log) = log @ [c])"
proof (cases ep)
  case EP_framework
  then show ?thesis by simp
next
  case EP_root
  then show ?thesis by simp
next
  case EP_health
  then show ?thesis by (simp add: run_health del: run_endpoint.simps)
next
  case EP_tasks_route
  then show ?thesis by (simp add: run_tasks_route del: run_endpoint.simps)
next
  case EP_task_by_id_route
  then show ?thesis
    by (simp add: run_task_by_id_route del: run_endpoint.simps split: option.splits sum.splits)
next
  case EP_task_status_route
  then show ?thesis
    by (simp add: run_task_status_route del: run_endpoint.simps split: option.splits sum.splits)
next
  case EP_users_route
  then show ?thesis by simp
next
  case EP_projects_route
  then show ?thesis by simp
qed

lemma app_full_match:
  "\<not> is_preflight request \<Longrightarrow>
   first_match FullMatch routes (req_method request) (req_path request) = Some (r, ps) \<Longrightarrow>
   app conv cfg net request log =
     (respond request (fst (run_endpoint conv cfg net (route_endpoint r) ps request log)),
      snd (run_endpoint conv cfg net (route_endpoint r) ps request log))"
  by (simp add: app_def router_def split: prod.splits)

lemma app_no_full_match:
  "first_match FullMatch routes (req_method request) (req_path request) = None \<Longrightarrow>
   snd (app conv cfg net request log) = log"
  by (simp add: app_def router_def split: prod.splits option.splits)

lemma app_log:
  "snd (app conv cfg net request log) = log \<or> (\<exists>c. snd (app conv cfg net request log) = log @ [c])"
proof (cases "is_preflight request")
  case True
  then show ?thesis by (simp add: app_def)
next
  case np: False
  show ?thesis
  proof (cases "first_match FullMatch routes (req_method request) (req_path request)")
    case None
    then show ?thesis by (simp add: app_no_full_match)
  next
    case (Some a)
    obtain r ps where "a = (r, ps)" by (cases a)
    with Some np show ?thesis
      using run_endpoint_log [of conv cfg net "route_endpoint r" ps request log]
      by (simp add: app_full_match)
  qed
qed

text \<open>
  A request that is answered after one call was issued was matched fully by a route; the
  call is the health probe, or the call of the forwarder, whose result is the answer.
\<close>

lemma app_call:
  assumes "app conv cfg net request log = (resp, log @ [c])"
  shows "\<exists>r ps. first_match FullMatch routes (req_method request) (req_path request) = Some (r, ps) \<and>
           ((route_endpoint r = EP_health \<and> c = health_probe cfg) \<or>
            (\<exists>path body.
               c = forward_call (TASK_SERVICE_URL cfg) path (req_method request) request body \<and>
               resp = respond request
                        (fst (forward_request net (TASK_SERVICE_URL cfg) path (req_method request)
                                request body log)) \<and>
               ((route_endpoint r = EP_tasks_route \<and>
                   body = (if req_method request = ''POST'' then Some (req_body request) else None)) \<or>
                (route_endpoint r = EP_task_by_id_route \<and>
                   body = (if req_method request \<in> set [''PUT'', ''PATCH'']
                           then Some (req_body request) else None)) \<or>
                (route_endpoint r = EP_task_status_route \<and> body = Some (req_body request)))))"
proof -
  from assms have np: "\<not> is_preflight request" by (auto simp: app_def)
  from assms have "snd (app conv cfg net request log) \<noteq> log" by simp
  with app_no_full_match [of request conv cfg net log]
  obtain r ps where fm: "first_match FullMatch routes (req_method request) (req_path request) = Some (r, ps)"
    by (cases "first_match FullMatch routes (req_method request) (req_path request)") auto
  obtain res log' where run: "run_endpoint conv cfg net (route_endpoint r) ps request log = (res, log')"
    by (cases "run_endpoint conv cfg net (route_endpoint r) ps request log")
  with assms np fm have "log' = log @ [c]" and resp: "resp = respond request res"
    by (simp_all add: app_full_match)
  with run have "run_endpoint conv cfg net (route_endpoint r) ps request log = (res, log @ [c])"
    by simp
  from run_endpoint_call [OF this] resp fm show ?thesis by blast
qed

subsection \<open>Matching of routes\<close>


lemma first_match_none:
  "(\<And>r. r \<in> set rs \<Longrightarrow> fst (matches r verb path) \<noteq> m) \<Longrightarrow> first_match m rs verb path = None"
proof (induction rs)
  case Nil
  then show ?case by simp
next
  case (Cons a rs)
  obtain m' ps' where a: "matches a verb path = (m', ps')" by (cases "matches a verb path")
  from Cons.prems [of a] a have "m' \<noteq> m" by simp
  moreover have "first_match m rs verb path = None" using Cons.prems by (intro Cons.IH) simp
  ultimately show ?case using a by simp
qed

lemma first_match_some:
  "r \<in> set rs \<Longrightarrow> fst (matches r verb path) = m \<Longrightarrow> first_match m rs verb path \<noteq> None"
proof (induction rs)
  case Nil
  then show ?case by simp
next
  case (Cons a rs)
  obtain m' ps' where a: "matches a verb path = (m', ps')" by (cases "matches a verb path")
  show ?case
  proof (cases "m' = m")
    case True
    with a show ?thesis by simp
  next
    case False
    with Cons a have "r \<in> set rs" by auto
    with Cons False a show ?thesis by simp
  qed
qed

lemma fst_matches:
  "fst (matches r verb path) =
     (if match_path (route_path r) path = None then NoMatch
      else if verb \<in> set (route_methods r) then FullMatch else PartialMatch)"
  by (simp add: matches_def split: option.splits)


lemma first_match_tasks:
  "verb = ''GET'' \<or> verb = ''POST'' \<Longrightarrow>
   first_match FullMatch routes verb ''/tasks'' =
     Some (\<lparr>route_path = [Lit ''/tasks''], route_methods = [''GET'', ''POST''],
            route_endpoint = EP_tasks_route\<rparr>, [])"
  by (auto simp add: routes_def matches_def)

lemma match_path_param_end:
  "match_path [Param name] s =
     (if s \<noteq> [] \<and> CHR ''/'' \<notin> set s then Some [(name, s)] else None)"
proof (cases "s \<noteq> [] \<and> CHR ''/'' \<notin> set s")
  case True
  then have tw: "takeWhile (\<lambda>c. c \<noteq> CHR ''/'') s = s"
    by (simp add: takeWhile_eq_all_conv) auto
  from True have dw: "dropWhile (\<lambda>c. c \<noteq> CHR ''/'') s = []"
    by (simp add: dropWhile_eq_Nil_conv) auto
  have "match_path [Param name] s = Some [(name, s)]"
    by (simp only: match_path.simps tw dw Let_def) (simp add: True)
  with True show ?thesis by simp
next
  case False
  show ?thesis
  proof (cases "takeWhile (\<lambda>c. c \<noteq> CHR ''/'') s = []")
    case True
    have "match_path [Param name] s = None"
      by (simp only: match_path.simps True Let_def) simp
    with False show ?thesis by simp
  next
    case nonempty: False
    then have "s \<noteq> []" by auto
    with False have "CHR ''/'' \<in> set s" by simp
    then obtain d ds where d: "dropWhile (\<lambda>c. c \<noteq> CHR ''/'') s = d # ds"
      by (cases "dropWhile (\<lambda>c. c \<noteq> CHR ''/'') s") (auto simp: dropWhile_eq_Nil_conv)
    with hd_dropWhile [of "\<lambda>c. c \<noteq> CHR ''/''" s] have "d = CHR ''/''" by simp
    with d have "match_path [] (dropWhile (\<lambda>c. c \<noteq> CHR ''/'') s) = None" by simp
    then have "match_path [Param name] s = None"
      by (simp only: match_path.simps Let_def) simp
    with False show ?thesis by simp
  qed
qed

lemma match_path_task_by_id:
  "match_path [Lit ''/tasks/'', Param ''task_id''] (''/tasks/'' @ seg) =
     (if seg \<noteq> [] \<and> CHR ''/'' \<notin> set seg then Some [(''task_id'', seg)] else None)"
proof -
  have "match_path [Lit ''/tasks/'', Param ''task_id''] (''/tasks/'' @ seg) =
      match_path [Param ''task_id''] seg"
    by (simp del: match_path.simps(3))
  then show ?thesis by (simp only: match_path_param_end)
qed

lemma match_path_task_status:
  "seg \<noteq> [] \<Longrightarrow> CHR ''/'' \<notin> set seg \<Longrightarrow>
   match_path [Lit ''/tasks/'', Param ''task_id'', Lit ''/status''] (''/tasks/'' @ seg @ ''/status'') =
     Some [(''task_id'', seg)]"
proof -
  assume seg: "seg \<noteq> []" "CHR ''/'' \<notin> set seg"
  have "takeWhile (\<lambda>c. c \<noteq> CHR ''/'') (seg @ ''/status'') =
      seg @ takeWhile (\<lambda>c. c \<noteq> CHR ''/'') ''/status''"
    using seg by (intro takeWhile_append2) auto
  then have tw: "takeWhile (\<lambda>c. c \<noteq> CHR ''/'') (seg @ ''/status'') = seg" by simp
  have "dropWhile (\<lambda>c. c \<noteq> CHR ''/'') (seg @ ''/status'') =
      dropWhile (\<lambda>c. c \<noteq> CHR ''/'') ''/status''"
    using seg by (intro dropWhile_append2) auto
  then have dw: "dropWhile (\<lambda>c. c \<noteq> CHR ''/'') (seg @ ''/status'') = ''/status''" by simp
  have "match_path [Lit ''/tasks/'', Param ''task_id'', Lit ''/status''] (''/tasks/'' @ seg @ ''/status'') =
      match_path [Param ''task_id'', Lit ''/status''] (seg @ ''/status'')"
    by (simp del: match_path.simps(3))
  also have "\<dots> = Some [(''task_id'', seg)]"
    by (simp only: match_path.simps tw dw Let_def) (simp add: seg)
  finally show ?thesis .
qed

lemma first_match_task_by_id:
  assumes "seg \<noteq> []" "CHR ''/'' \<notin> set seg"
    and "verb = ''GET'' \<or> verb = ''PUT'' \<or> verb = ''PATCH'' \<or> verb = ''DELETE''"
  shows "first_match FullMatch routes verb (''/tasks/'' @ seg) =
     Some (\<lparr>route_path = [Lit ''/tasks/'', Param ''task_id''],
            route_methods = [''GET'', ''PUT'', ''PATCH'', ''DELETE''],
            route_endpoint = EP_task_by_id_route\<rparr>, [(''task_id'', seg)])"
proof -
  have m: "match_path [Lit ''/tasks/'', Param ''task_id''] (''/tasks/'' @ seg) = Some [(''task_id'', seg)]"
    using assms(1,2) by (simp only: match_path_task_by_id) simp
  have "matches \<lparr>route_path = [Lit ''/tasks/'', Param ''task_id''],
            route_methods = [''GET'', ''PUT'', ''PATCH'', ''DELETE''],
            route_endpoint = EP_task_by_id_route\<rparr> verb (''/tasks/'' @ seg) =
          (FullMatch, [(''task_id'', seg)])"
    unfolding matches_def using m assms(3) by auto
  moreover have "match_path [Lit ''/tasks''] (''/tasks/'' @ seg) = None" by simp
  moreover have "match_path [Lit ''/''] (''/tasks/'' @ seg) = None" by simp
  moreover have "match_path [Lit ''/health''] (''/tasks/'' @ seg) = None" by simp
  moreover have "match_path [Lit ''/openapi.json''] (''/tasks/'' @ seg) = None" by simp
  moreover have "match_path [Lit ''/docs''] (''/tasks/'' @ seg) = None" by simp
  moreover have "match_path [Lit ''/docs/oauth2-redirect''] (''/tasks/'' @ seg) = None" by simp
  moreover have "match_path [Lit ''/redoc''] (''/tasks/'' @ seg) = None" by simp
  ultimately show ?thesis
    by (simp add: routes_def matches_def del: match_path.simps)
qed

lemma first_match_task_status:
  assumes "seg \<noteq> []" "CHR ''/'' \<notin> set seg"
  shows "first_match FullMatch routes ''PATCH'' (''/tasks/'' @ seg @ ''/status'') =
     Some (\<lparr>route_path = [Lit ''/tasks/'', Param ''task_id'', Lit ''/status''],
            route_methods = [''PATCH''],
            route_endpoint = EP_task_status_route\<rparr>, [(''task_id'', seg)])"
proof -
  have m: "match_path [Lit ''/tasks/'', Param ''task_id'', Lit ''/status'']
             (''/tasks/'' @ seg @ ''/status'') = Some [(''task_id'', seg)]"
    using assms by (rule match_path_task_status)
  have "CHR ''/'' \<in> set (seg @ ''/status'')" by simp
  moreover have "seg @ ''/status'' \<noteq> []" by simp
  ultimately have "match_path [Lit ''/tasks/'', Param ''task_id''] (''/tasks/'' @ (seg @ ''/status'')) = None"
    by (simp only: match_path_task_by_id) simp
  then have n: "match_path [Lit ''/tasks/'', Param ''task_id''] (''/tasks/'' @ seg @ ''/status'') = None"
    by simp
  have "match_path [Lit ''/tasks''] (''/tasks/'' @ seg @ ''/status'') = None" by simp
  moreover have "match_path [Lit ''/''] (''/tasks/'' @ seg @ ''/status'') = None" by simp
  moreover have "match_path [Lit ''/health''] (''/tasks/'' @ seg @ ''/status'') = None" by simp
  moreover have "match_path [Lit ''/openapi.json''] (''/tasks/'' @ seg @ ''/status'') = None" by simp
  moreover have "match_path [Lit ''/docs''] (''/tasks/'' @ seg @ ''/status'') = None" by simp
  moreover have "match_path [Lit ''/docs/oauth2-redirect''] (''/tasks/'' @ seg @ ''/status'') = None" by simp
  moreover have "match_path [Lit ''/redoc''] (''/tasks/'' @ seg @ ''/status'') = None" by simp
  ultimately show ?thesis using m n
    by (simp add: routes_def matches_def del: match_path.simps)
qed

subsection \<open>Successful responses\<close>

lemma map_char_of_decode_latin1: "map char_of (decode_latin1 s) = s"
  unfolding decode_latin1_def by (induction s) simp_all

lemma decode_latin1_append: "decode_latin1 a @ decode_latin1 b = decode_latin1 (a @ b)"
  by (simp add: decode_latin1_def)

lemma app_tasks:
  assumes "req_method request = ''GET'' \<or> req_method request = ''POST''"
    and "req_path request = ''/tasks''"
  shows "app conv cfg net request log =
     (respond request
        (fst (forward_request net (TASK_SERVICE_URL cfg) ''/tasks'' (req_method request) request
                (if req_method request = ''POST'' then Some (req_body request) else None) log)),
      log @ [forward_call (TASK_SERVICE_URL cfg) ''/tasks'' (req_method request) request
               (if req_method request = ''POST'' then Some (req_body request) else None)])"
proof -
  from assms(1) have np: "\<not> is_preflight request" by (auto simp: is_preflight_def)
  from first_match_tasks [OF assms(1)] assms(2)
  have fm: "first_match FullMatch routes (req_method request) (req_path request) =
      Some (\<lparr>route_path = [Lit ''/tasks''], route_methods = [''GET'', ''POST''],
             route_endpoint = EP_tasks_route\<rparr>, [])" by simp
  show ?thesis
    by (simp add: app_full_match [OF np fm] run_tasks_route del: run_endpoint.simps)
qed

lemma example_get_tasks:
  "app conv example_settings net (example_request ''GET'' ''/tasks'') [] =
     (respond (example_request ''GET'' ''/tasks'')
        (fst (forward_request net ''http://localhost:8003'' ''/tasks'' ''GET''
                (example_request ''GET'' ''/tasks'') None [])),
      [forward_call ''http://localhost:8003'' ''/tasks'' ''GET'' (example_request ''GET'' ''/tasks'') None])"
  using app_tasks [of "example_request ''GET'' ''/tasks''" conv example_settings net "[]"]
  by (simp add: example_request_def example_settings_def)

text \<open>
  Claim C2, as stated, fails in two ways. The forwarder passes
  \<^verbatim>\<open>dict(response.headers)\<close> on, and a dictionary holds one entry for each name: a
  backend that answers with two \<^verbatim>\<open>set-cookie\<close> headers gets them merged into one.
  And the response is constructed inside the \<^verbatim>\<open>try\<close> block: a backend that
  answers 200 with a header value that has no \<^verbatim>\<open>latin-1\<close> encoding (here the euro
  sign) makes the constructor raise, and the gateway answers 500 in place of the
  backend's 200.
\<close>

theorem forward_headers_merged_counterexample:
  "app decimal_int example_settings backend_two_cookies (example_request ''GET'' ''/tasks'') [] =
     (Response ''[]'' 200 [(''set-cookie'', ''a=1, b=2'')] None,
      [forward_call ''http://localhost:8003'' ''/tasks'' ''GET'' (example_request ''GET'' ''/tasks'') None]) \<and>
   backend_two_cookies (forward_call ''http://localhost:8003'' ''/tasks'' ''GET''
       (example_request ''GET'' ''/tasks'') None) =
     Inr \<lparr>resp_status_code = 200, resp_content = ''[]'',
          resp_headers = [(''set-cookie'', decode_latin1 ''a=1''),
                          (''set-cookie'', decode_latin1 ''b=2'')]\<rparr> \<and>
   app decimal_int example_settings backend_euro (example_request ''GET'' ''/tasks'') [] =
     (JSONResponse 500
        (JObj [(''detail'',
                JStr (''Gateway error: '' @ [CHR 0x27] @ ''latin-1'' @ [CHR 0x27] @
                      '' codec can't encode character '' @ [CHR 0x27, CHR 0x5C] @ ''u20ac'' @
                      [CHR 0x27] @ '' in position 2: ordinal not in range(256)''))]),
      [forward_call ''http://localhost:8003'' ''/tasks'' ''GET'' (example_request ''GET'' ''/tasks'') None]) \<and>
   backend_euro (forward_call ''http://localhost:8003'' ''/tasks'' ''GET''
       (example_request ''GET'' ''/tasks'') None) =
     Inr \<lparr>resp_status_code = 200, resp_content = ''[]'',
          resp_headers = [(''content-type'', decode_latin1 ''application/json''),
                          (''x-price'', [53, 32, 8364])]\<rparr>"
proof -
  let ?c = "forward_call ''http://localhost:8003'' ''/tasks'' ''GET'' (example_request ''GET'' ''/tasks'') None"
  have d1: "dict_of_httpx_headers [(''set-cookie'', decode_latin1 ''a=1''),
                                   (''set-cookie'', decode_latin1 ''b=2'')] =
      [(''set-cookie'', decode_latin1 ''a=1, b=2'')]"
    by (simp add: dict_of_httpx_headers_def httpx_headers_get_def decode_latin1_append)
  have g1: "httpx_headers_get [(''set-cookie'', decode_latin1 ''a=1''),
                               (''set-cookie'', decode_latin1 ''b=2'')] ''content-type'' = None"
    by (simp add: httpx_headers_get_def)
  have a: "app decimal_int example_settings backend_two_cookies (example_request ''GET'' ''/tasks'') [] =
     (Response ''[]'' 200 [(''set-cookie'', ''a=1, b=2'')] None, [?c])"
    by (simp add: example_get_tasks forward_request_fst backend_two_cookies_def d1 g1
        Response_init_def encode_decode_latin1 respond_def lower_def lower_char_def)
  have b: "backend_two_cookies ?c =
     Inr \<lparr>resp_status_code = 200, resp_content = ''[]'',
          resp_headers = [(''set-cookie'', decode_latin1 ''a=1''),
                          (''set-cookie'', decode_latin1 ''b=2'')]\<rparr>"
    by (simp add: backend_two_cookies_def)
  have d2: "dict_of_httpx_headers [(''content-type'', decode_latin1 ''application/json''),
                                   (''x-price'', [53, 32, 8364])] =
      [(''content-type'', decode_latin1 ''application/json''), (''x-price'', [53, 32, 8364])]"
    by (simp add: dict_of_httpx_headers_id)
  have e: "encode_latin1 [53, 32, 8364] =
      Inl ([CHR 0x27] @ ''latin-1'' @ [CHR 0x27] @
           '' codec can't encode character '' @ [CHR 0x27, CHR 0x5C] @ ''u20ac'' @
           [CHR 0x27] @ '' in position 2: ordinal not in range(256)'')"
    by (simp add: encode_latin1_def is_latin1_def unicode_encode_error_def quote_def
        escape_char_def zero_pad_def hex_nat.simps hex_digit_def str_nat.simps digit_char_def
        char_of_def bit_iff_odd)
  have c: "app decimal_int example_settings backend_euro (example_request ''GET'' ''/tasks'') [] =
     (JSONResponse 500
        (JObj [(''detail'',
                JStr (''Gateway error: '' @ [CHR 0x27] @ ''latin-1'' @ [CHR 0x27] @
                      '' codec can't encode character '' @ [CHR 0x27, CHR 0x5C] @ ''u20ac'' @
                      [CHR 0x27] @ '' in position 2: ordinal not in range(256)''))]), [?c])"
    by (simp add: example_get_tasks forward_request_fst backend_euro_def d2
        Response_init_def encode_decode_latin1 e respond_def)
  have d: "backend_euro ?c =
     Inr \<lparr>resp_status_code = 200, resp_content = ''[]'',
          resp_headers = [(''content-type'', decode_latin1 ''application/json''),
                          (''x-price'', [53, 32, 8364])]\<rparr>"
    by (simp add: backend_euro_def)
  from a b c d show ?thesis by (intro conjI)
qed

text \<open>
  Claim C2, amended. Take a request that the gateway answers after the forwarder has
  issued a call, and a backend that answers this call with a response, whatever its
  status. When every header value of that response can be encoded in \<^verbatim>\<open>latin-1\<close>,
  the gateway returns the status code and the content of the response unchanged, and as
  headers the dictionary of the response's headers, encoded: one entry for each distinct
  name, holding the values of that name joined by a comma and a blank, and so exactly the
  backend's headers when no name repeats. When some header value cannot be encoded, the
  gateway answers 500 with \<^verbatim>\<open>{"detail": "Gateway error: <message>"}\<close>, the
  message being that of the encoding error of such a value.
\<close>

theorem forward_success_passthrough:
  assumes "app conv cfg net request log = (resp, log @ [c])"
    and "c \<noteq> health_probe cfg"
    and "net c = Inr response"
  shows "((\<forall>v\<in>snd ` set (resp_headers response). is_latin1 v) \<longrightarrow>
            resp = Response (resp_content response) (resp_status_code response)
                     (map (\<lambda>(k, v). (lower k, map char_of v))
                        (dict_of_httpx_headers (resp_headers response)))
                     (httpx_headers_get (resp_headers response) ''content-type'')) \<and>
         (\<not> (\<forall>v\<in>snd ` set (resp_headers response). is_latin1 v) \<longrightarrow>
            (\<exists>v\<in>snd ` set (dict_of_httpx_headers (resp_headers response)). \<not> is_latin1 v \<and>
               resp = JSONResponse 500
                        (JObj [(''detail'', JStr (''Gateway error: '' @ unicode_encode_error v))]))) \<and>
         distinct (map fst (dict_of_httpx_headers (resp_headers response))) \<and>
         map_of (dict_of_httpx_headers (resp_headers response)) name =
           (let items = map snd (filter (\<lambda>(k, v). k = name) (resp_headers response))
            in if items = [] then None else Some (join (decode_latin1 '', '') items)) \<and>
         (distinct (map fst (resp_headers response)) \<longrightarrow>
            dict_of_httpx_headers (resp_headers response) = resp_headers response)"
proof -
  let ?d = "dict_of_httpx_headers (resp_headers response)"
  let ?mt = "httpx_headers_get (resp_headers response) ''content-type''"
  from app_call [OF assms(1)] assms(2) obtain path body where
    c: "c = forward_call (TASK_SERVICE_URL cfg) path (req_method request) request body" and
    resp: "resp = respond request
             (fst (forward_request net (TASK_SERVICE_URL cfg) path (req_method request) request body log))"
    by blast
  from assms(3) c have
    net: "net (forward_call (TASK_SERVICE_URL cfg) path (req_method request) request body) = Inr response"
    by simp
  have fwd: "fst (forward_request net (TASK_SERVICE_URL cfg) path (req_method request) request body log) =
      (case Response_init (resp_content response) (resp_status_code response) ?d ?mt of
         Inr r \<Rightarrow> Inr r
       | Inl msg \<Rightarrow> Inl (HTTPException 500 (''Gateway error: '' @ msg)))"
    by (simp add: forward_request_fst net)
  have a: "(\<forall>v\<in>snd ` set (resp_headers response). is_latin1 v) \<longrightarrow>
      resp = Response (resp_content response) (resp_status_code response)
               (map (\<lambda>(k, v). (lower k, map char_of v)) ?d) ?mt"
  proof
    assume "\<forall>v\<in>snd ` set (resp_headers response). is_latin1 v"
    then have "\<forall>v\<in>snd ` set ?d. is_latin1 v"
      using dict_of_httpx_headers_latin1 [of "resp_headers response"] by blast
    then have "encode_headers ?d = Inr (map (\<lambda>(k, v). (lower k, map char_of v)) ?d)"
      by (rule encode_headers_ok)
    then show "resp = Response (resp_content response) (resp_status_code response)
               (map (\<lambda>(k, v). (lower k, map char_of v)) ?d) ?mt"
      by (simp add: resp fwd Response_init_def respond_def)
  qed
  have b: "\<not> (\<forall>v\<in>snd ` set (resp_headers response). is_latin1 v) \<longrightarrow>
      (\<exists>v\<in>snd ` set ?d. \<not> is_latin1 v \<and>
         resp = JSONResponse 500
                  (JObj [(''detail'', JStr (''Gateway error: '' @ unicode_encode_error v))]))"
  proof
    assume "\<not> (\<forall>v\<in>snd ` set (resp_headers response). is_latin1 v)"
    then have "\<not> (\<forall>v\<in>snd ` set ?d. is_latin1 v)"
      using dict_of_httpx_headers_latin1 [of "resp_headers response"] by blast
    from encode_headers_fail [OF this] obtain v where
      v: "v \<in> snd ` set ?d" "\<not> is_latin1 v" "encode_headers ?d = Inl (unicode_encode_error v)"
      by blast
    from v(3) have "resp = JSONResponse 500
        (JObj [(''detail'', JStr (''Gateway error: '' @ unicode_encode_error v))])"
      by (simp add: resp fwd Response_init_def respond_def)
    with v(1,2) show "\<exists>v\<in>snd ` set ?d. \<not> is_latin1 v \<and>
         resp = JSONResponse 500
                  (JObj [(''detail'', JStr (''Gateway error: '' @ unicode_encode_error v))])"
      by blast
  qed
  have l: "map_of ?d name =
      (let items = map snd (filter (\<lambda>(k, v). k = name) (resp_headers response))
       in if items = [] then None else Some (join (decode_latin1 '', '') items))"
    by (simp only: dict_of_httpx_headers_lookup httpx_headers_get_def)
  have i: "distinct (map fst (resp_headers response)) \<longrightarrow> ?d = resp_headers response"
    by (simp add: dict_of_httpx_headers_id)
  from a b dict_of_httpx_headers_distinct l i show ?thesis by (intro conjI)
qed

text \<open>A backend that answers 200 with a single content type.\<close>

theorem forward_success_passthrough_witness:
  "app decimal_int example_settings backend_ok (example_request ''GET'' ''/tasks'') [] =
     (Response ''[]'' 200 [(''content-type'', ''application/json'')]
        (Some (decode_latin1 ''application/json'')),
      [forward_call ''http://localhost:8003'' ''/tasks'' ''GET'' (example_request ''GET'' ''/tasks'') None]) \<and>
   Response ''[]'' 200 [(''content-type'', ''application/json'')]
        (Some (decode_latin1 ''application/json'')) =
     Response ''[]'' 200
       (map (\<lambda>(k, v). (lower k, map char_of v))
          (dict_of_httpx_headers [(''content-type'', decode_latin1 ''application/json'')]))
       (httpx_headers_get [(''content-type'', decode_latin1 ''application/json'')] ''content-type'') \<and>
   dict_of_httpx_headers [(''content-type'', decode_latin1 ''application/json'')] =
     [(''content-type'', decode_latin1 ''application/json'')]"
proof -
  let ?c = "forward_call ''http://localhost:8003'' ''/tasks'' ''GET'' (example_request ''GET'' ''/tasks'') None"
  let ?resp = "Response ''[]'' 200 [(''content-type'', ''application/json'')]
        (Some (decode_latin1 ''application/json''))"
  let ?response = "\<lparr>resp_status_code = 200, resp_content = ''[]'',
        resp_headers = [(''content-type'', decode_latin1 ''application/json'')]\<rparr>"
  have d0: "dict_of_httpx_headers [(''content-type'', decode_latin1 ''application/json'')] =
      [(''content-type'', decode_latin1 ''application/json'')]"
    by (simp add: dict_of_httpx_headers_id)
  have g0: "httpx_headers_get [(''content-type'', decode_latin1 ''application/json'')] ''content-type'' =
      Some (decode_latin1 ''application/json'')"
    by (simp add: httpx_headers_get_def)
  have a: "app decimal_int example_settings backend_ok (example_request ''GET'' ''/tasks'') [] =
      (?resp, [?c])"
    by (simp add: example_get_tasks forward_request_fst backend_ok_def d0 g0
        Response_init_def encode_decode_latin1 respond_def lower_def lower_char_def)
  then have h1: "app decimal_int example_settings backend_ok (example_request ''GET'' ''/tasks'') [] =
      (?resp, [] @ [?c])" by simp
  have h2: "?c \<noteq> health_probe example_settings" by (rule forward_call_not_probe)
  have h3: "backend_ok ?c = Inr ?response" by (simp add: backend_ok_def)
  have l: "\<forall>v\<in>snd ` set (resp_headers ?response). is_latin1 v" by (simp add: is_latin1_decode)
  note t = forward_success_passthrough [OF h1 h2 h3]
  from t l have b: "?resp = Response ''[]'' 200
       (map (\<lambda>(k, v). (lower k, map char_of v))
          (dict_of_httpx_headers [(''content-type'', decode_latin1 ''application/json'')]))
       (httpx_headers_get [(''content-type'', decode_latin1 ''application/json'')] ''content-type'')"
    by simp
  from t have d: "dict_of_httpx_headers [(''content-type'', decode_latin1 ''application/json'')] =
     [(''content-type'', decode_latin1 ''application/json'')]"
    by simp
  from a b d show ?thesis by (intro conjI)
qed

subsection \<open>The outbound call\<close>

text \<open>
  Claim C4, as stated, fails on repeated query keys and repeated header names: the
  forwarder passes \<^verbatim>\<open>dict(request.query_params)\<close> and \<^verbatim>\<open>dict(request.headers)\<close>
  to the client. Of \<^verbatim>\<open>?tag=a&tag=b\<close> only \<^verbatim>\<open>tag=b\<close> is sent on, and of two
  \<^verbatim>\<open>accept\<close> headers only the first.
\<close>

theorem forward_query_repeated_counterexample:
  "snd (app decimal_int example_settings backend_ok request_with_repeats []) =
     [\<lparr>call_timeout = 30, call_method = ''GET'', call_url = ''http://localhost:8003/tasks'',
       call_headers = [(''accept'', ''text/html'')], call_content = None,
       call_params = [(''tag'', ''b'')]\<rparr>] \<and>
   req_query_params request_with_repeats = [(''tag'', ''a''), (''tag'', ''b'')] \<and>
   req_headers request_with_repeats =
     [(''host'', ''gateway''), (''accept'', ''text/html''), (''accept'', ''application/json'')]"
proof -
  have "snd (app decimal_int example_settings backend_ok request_with_repeats []) =
      [forward_call ''http://localhost:8003'' ''/tasks'' ''GET'' request_with_repeats None]"
    using app_tasks [of request_with_repeats decimal_int example_settings backend_ok "[]"]
    by (simp add: request_with_repeats_def example_settings_def)
  then have a: "snd (app decimal_int example_settings backend_ok request_with_repeats []) =
     [\<lparr>call_timeout = 30, call_method = ''GET'', call_url = ''http://localhost:8003/tasks'',
       call_headers = [(''accept'', ''text/html'')], call_content = None,
       call_params = [(''tag'', ''b'')]\<rparr>]"
    by (simp add: forward_call_def request_with_repeats_def dict_of_query_params_def
        dict_of_headers_def headers_getitem_def)
  have b: "req_query_params request_with_repeats = [(''tag'', ''a''), (''tag'', ''b'')]"
    by (simp add: request_with_repeats_def)
  have c: "req_headers request_with_repeats =
     [(''host'', ''gateway''), (''accept'', ''text/html''), (''accept'', ''application/json'')]"
    by (simp add: request_with_repeats_def)
  from a b c show ?thesis by (intro conjI)
qed

text \<open>
  Claim C4, amended. Whatever the request, a call that the gateway issues for it, other
  than the probe of the health check, carries the method of the request. Its query
  parameters are a dictionary: one entry for each distinct key, holding the last value the
  request gives for it, and exactly the request's parameters when no key repeats. Its
  headers are a dictionary without \<^verbatim>\<open>host\<close>: one entry for each other distinct
  name, holding the first value the request gives for it, and exactly the request's
  headers but \<^verbatim>\<open>host\<close> when no name repeats. A \<^verbatim>\<open>GET\<close> or \<^verbatim>\<open>POST\<close>
  request to \<^verbatim>\<open>/tasks\<close> always has such a call, to \<^verbatim>\<open>/tasks\<close> of the task
  service.
\<close>

theorem forward_call_preserves:
  "(app conv cfg net request log = (resp, log @ [c]) \<and> c \<noteq> health_probe cfg \<longrightarrow>
      call_method c = req_method request \<and>
      distinct (map fst (call_params c)) \<and>
      map_of (call_params c) = map_of (rev (req_query_params request)) \<and>
      (distinct (map fst (req_query_params request)) \<longrightarrow>
         call_params c = req_query_params request) \<and>
      distinct (map fst (call_headers c)) \<and>
      map_of (call_headers c) = (map_of (req_headers request))(''host'' := None) \<and>
      (distinct (map fst (req_headers request)) \<longrightarrow>
         call_headers c = filter (\<lambda>(k, v). k \<noteq> ''host'') (req_headers request))) \<and>
   ((req_method request = ''GET'' \<or> req_method request = ''POST'') \<and>
    req_path request = ''/tasks'' \<longrightarrow>
      (\<exists>c'. snd (app conv cfg net request log) = log @ [c'] \<and> c' \<noteq> health_probe cfg \<and>
            call_url c' = TASK_SERVICE_URL cfg @ ''/tasks''))"
proof -
  have a: "app conv cfg net request log = (resp, log @ [c]) \<and> c \<noteq> health_probe cfg \<longrightarrow>
      call_method c = req_method request \<and>
      distinct (map fst (call_params c)) \<and>
      map_of (call_params c) = map_of (rev (req_query_params request)) \<and>
      (distinct (map fst (req_query_params request)) \<longrightarrow>
         call_params c = req_query_params request) \<and>
      distinct (map fst (call_headers c)) \<and>
      map_of (call_headers c) = (map_of (req_headers request))(''host'' := None) \<and>
      (distinct (map fst (req_headers request)) \<longrightarrow>
         call_headers c = filter (\<lambda>(k, v). k \<noteq> ''host'') (req_headers request))"
  proof
    assume h: "app conv cfg net request log = (resp, log @ [c]) \<and> c \<noteq> health_probe cfg"
    then have h1: "app conv cfg net request log = (resp, log @ [c])" and h2: "c \<noteq> health_probe cfg"
      by simp_all
    from app_call [OF h1] h2 obtain path body where
      c: "c = forward_call (TASK_SERVICE_URL cfg) path (req_method request) request body"
      by blast
    have m: "call_method c = req_method request" by (simp add: c forward_call_def)
    have p1: "distinct (map fst (call_params c))"
      by (simp add: c forward_call_def dict_of_query_params_distinct)
    have p2: "map_of (call_params c) = map_of (rev (req_query_params request))"
      by (simp add: c forward_call_def dict_of_query_params_last)
    have p3: "distinct (map fst (req_query_params request)) \<longrightarrow>
        call_params c = req_query_params request"
      by (simp add: c forward_call_def dict_of_query_params_id)
    have h1: "distinct (map fst (call_headers c))"
      by (simp add: c forward_call_def distinct_dict_pop dict_of_headers_distinct)
    have h2: "map_of (call_headers c) = (map_of (req_headers request))(''host'' := None)"
      by (simp add: c forward_call_def map_of_dict_pop dict_of_headers_first)
    have h3: "distinct (map fst (req_headers request)) \<longrightarrow>
        call_headers c = filter (\<lambda>(k, v). k \<noteq> ''host'') (req_headers request)"
      by (simp add: c forward_call_def dict_of_headers_id dict_pop_filter)
    from m p1 p2 p3 h1 h2 h3
    show "call_method c = req_method request \<and>
      distinct (map fst (call_params c)) \<and>
      map_of (call_params c) = map_of (rev (req_query_params request)) \<and>
      (distinct (map fst (req_query_params request)) \<longrightarrow>
         call_params c = req_query_params request) \<and>
      distinct (map fst (call_headers c)) \<and>
      map_of (call_headers c) = (map_of (req_headers request))(''host'' := None) \<and>
      (distinct (map fst (req_headers request)) \<longrightarrow>
         call_headers c = filter (\<lambda>(k, v). k \<noteq> ''host'') (req_headers request))"
      by (intro conjI)
  qed
  have b: "(req_method request = ''GET'' \<or> req_method request = ''POST'') \<and>
    req_path request = ''/tasks'' \<longrightarrow>
      (\<exists>c'. snd (app conv cfg net request log) = log @ [c'] \<and> c' \<noteq> health_probe cfg \<and>
            call_url c' = TASK_SERVICE_URL cfg @ ''/tasks'')"
  proof
    assume h: "(req_method request = ''GET'' \<or> req_method request = ''POST'') \<and>
      req_path request = ''/tasks''"
    let ?c = "forward_call (TASK_SERVICE_URL cfg) ''/tasks'' (req_method request) request
               (if req_method request = ''POST'' then Some (req_body request) else None)"
    from h have "snd (app conv cfg net request log) = log @ [?c]"
      by (simp add: app_tasks)
    moreover have "?c \<noteq> health_probe cfg" by (rule forward_call_not_probe)
    moreover have "call_url ?c = TASK_SERVICE_URL cfg @ ''/tasks''" by (simp add: forward_call_def)
    ultimately show "\<exists>c'. snd (app conv cfg net request log) = log @ [c'] \<and>
        c' \<noteq> health_probe cfg \<and> call_url c' = TASK_SERVICE_URL cfg @ ''/tasks''"
      by blast
  qed
  from a b show ?thesis by (intro conjI)
qed

text \<open>A \<^verbatim>\<open>POST\<close> request to \<^verbatim>\<open>/tasks\<close> whose keys and names are all distinct.\<close>

theorem forward_call_preserves_witness:
  "(\<exists>resp c. app decimal_int example_settings backend_ok (example_request ''POST'' ''/tasks'') [] =
      (resp, [c]) \<and> c \<noteq> health_probe example_settings \<and>
      call_method c = ''POST'' \<and>
      call_params c = [(''status'', ''todo''), (''limit'', ''5'')] \<and>
      call_headers c = [(''accept'', ''application/json'')])"
proof -
  let ?request = "example_request ''POST'' ''/tasks''"
  obtain resp log' where app: "app decimal_int example_settings backend_ok ?request [] = (resp, log')"
    by (cases "app decimal_int example_settings backend_ok ?request []")
  have pre: "(req_method ?request = ''GET'' \<or> req_method ?request = ''POST'') \<and>
      req_path ?request = ''/tasks''"
    by (simp add: example_request_def)
  note t = forward_call_preserves [where conv = decimal_int and cfg = example_settings
      and net = backend_ok and request = ?request and log = "[]" and resp = resp]
  from t pre app obtain c where c: "log' = [c]" "c \<noteq> health_probe example_settings"
    by auto
  from c(1) app have "app decimal_int example_settings backend_ok ?request [] = (resp, [] @ [c])"
    by simp
  with t [of c] c(2) have
    "call_method c = req_method ?request"
    "distinct (map fst (req_query_params ?request)) \<longrightarrow> call_params c = req_query_params ?request"
    "distinct (map fst (req_headers ?request)) \<longrightarrow>
       call_headers c = filter (\<lambda>(k, v). k \<noteq> ''host'') (req_headers ?request)"
    by blast+
  then have "call_method c = ''POST'' \<and>
      call_params c = [(''status'', ''todo''), (''limit'', ''5'')] \<and>
      call_headers c = [(''accept'', ''application/json'')]"
    by (simp add: example_request_def)
  with app c show ?thesis by blast
qed

subsection \<open>The body of the outbound call\<close>




subsection \<open>Requests that no route serves\<close>

text \<open>
  Claim C5, as stated, fails for a request whose path matches a route that does not allow
  its method: the router raises the \<^verbatim>\<open>HTTPException\<close> with status 405, for which
  the file registers no handler, and the gateway answers 405 with
  \<^verbatim>\<open>{"detail": "Method Not Allowed"}\<close>. It also fails for a path that matches no
  route but matches one once its trailing slash is toggled, which is redirected.
\<close>

theorem method_not_allowed_counterexample:
  "app decimal_int example_settings backend_ok (example_request ''DELETE'' ''/tasks'') [] =
     (JSONResponse 405 (JObj [(''detail'', JStr ''Method Not Allowed'')]), []) \<and>
   match_path [Lit ''/tasks''] ''/tasks'' = Some [] \<and>
   ''DELETE'' \<notin> set [''GET'', ''POST''] \<and>
   app decimal_int example_settings backend_ok (example_request ''GET'' ''/tasks/'') [] =
     (RedirectResponse ''/tasks'', []) \<and>
   list_all (\<lambda>r. match_path (route_path r) ''/tasks/'' = None) routes"
proof -
  have a: "app decimal_int example_settings backend_ok (example_request ''DELETE'' ''/tasks'') [] =
     (JSONResponse 405 (JObj [(''detail'', JStr ''Method Not Allowed'')]), [])"
    by (simp add: app_def is_preflight_def router_def routes_def matches_def respond_def
        example_request_def)
  have b: "match_path [Lit ''/tasks''] ''/tasks'' = Some []" by simp
  have c: "''DELETE'' \<notin> set [''GET'', ''POST'']" by simp
  have d: "app decimal_int example_settings backend_ok (example_request ''GET'' ''/tasks/'') [] =
     (RedirectResponse ''/tasks'', [])"
    by (simp add: app_def is_preflight_def router_def routes_def matches_def respond_def
        example_request_def redirect_path_def rstrip_slash_def)
  have e: "list_all (\<lambda>r. match_path (route_path r) ''/tasks/'' = None) routes"
    by (simp add: routes_def)
  from a b c d e show ?thesis by (intro conjI)
qed

text \<open>
  Claim C5, amended. A request that is not a CORS preflight request is answered without
  any outbound call in each of these cases: with 404 and
  \<^verbatim>\<open>{"detail": "Resource not found"}\<close> when no route matches its path, nor its path
  with the trailing slash toggled; with 405 and \<^verbatim>\<open>{"detail": "Method Not Allowed"}\<close>
  when some route matches its path and no route that matches its path allows its method;
  with a redirect to the path with the trailing slash toggled when no route matches its
  path and some route matches the toggled path. A preflight request is answered by the
  CORS middleware, without any outbound call either.
\<close>

theorem unmatched_request_responses:
  "(\<not> is_preflight request \<and>
    (\<forall>r\<in>set routes. match_path (route_path r) (req_path request) = None) \<and>
    (\<forall>r\<in>set routes. match_path (route_path r) (redirect_path (req_path request)) = None) \<longrightarrow>
      app conv cfg net request log =
        (JSONResponse 404 (JObj [(''detail'', JStr ''Resource not found'')]), log)) \<and>
   (\<not> is_preflight request \<and>
    (\<exists>r\<in>set routes. match_path (route_path r) (req_path request) \<noteq> None) \<and>
    (\<forall>r\<in>set routes. match_path (route_path r) (req_path request) \<noteq> None \<longrightarrow>
       req_method request \<notin> set (route_methods r)) \<longrightarrow>
      app conv cfg net request log =
        (JSONResponse 405 (JObj [(''detail'', JStr ''Method Not Allowed'')]), log)) \<and>
   (\<not> is_preflight request \<and>
    (\<forall>r\<in>set routes. match_path (route_path r) (req_path request) = None) \<and>
    (\<exists>r\<in>set routes. match_path (route_path r) (redirect_path (req_path request)) \<noteq> None) \<longrightarrow>
      app conv cfg net request log = (RedirectResponse (redirect_path (req_path request)), log)) \<and>
   (is_preflight request \<longrightarrow> app conv cfg net request log = (PreflightResponse, log))"
proof -
  let ?verb = "req_method request"
  let ?p = "req_path request"
  have none: "first_match FullMatch routes ?verb ?p = None \<and>
      first_match PartialMatch routes ?verb ?p = None"
    if "\<forall>r\<in>set routes. match_path (route_path r) ?p = None"
  proof -
    from that have "\<And>r. r \<in> set routes \<Longrightarrow> fst (matches r ?verb ?p) \<noteq> FullMatch"
      and "\<And>r. r \<in> set routes \<Longrightarrow> fst (matches r ?verb ?p) \<noteq> PartialMatch"
      by (simp_all add: fst_matches)
    then show ?thesis by (simp add: first_match_none)
  qed
  have a: "\<not> is_preflight request \<and>
    (\<forall>r\<in>set routes. match_path (route_path r) ?p = None) \<and>
    (\<forall>r\<in>set routes. match_path (route_path r) (redirect_path ?p) = None) \<longrightarrow>
      app conv cfg net request log =
        (JSONResponse 404 (JObj [(''detail'', JStr ''Resource not found'')]), log)"
  proof
    assume h: "\<not> is_preflight request \<and>
      (\<forall>r\<in>set routes. match_path (route_path r) ?p = None) \<and>
      (\<forall>r\<in>set routes. match_path (route_path r) (redirect_path ?p) = None)"
    then have "\<forall>r\<in>set routes. fst (matches r ?verb (redirect_path ?p)) = NoMatch"
      by (simp add: fst_matches)
    then have "\<not> list_ex (\<lambda>r. fst (matches r ?verb (redirect_path ?p)) \<noteq> NoMatch) routes"
      by (simp add: list_ex_iff)
    with h none show "app conv cfg net request log =
        (JSONResponse 404 (JObj [(''detail'', JStr ''Resource not found'')]), log)"
      by (simp add: app_def router_def respond_def not_found_handler_def)
  qed
  have b: "\<not> is_preflight request \<and>
    (\<exists>r\<in>set routes. match_path (route_path r) ?p \<noteq> None) \<and>
    (\<forall>r\<in>set routes. match_path (route_path r) ?p \<noteq> None \<longrightarrow>
       ?verb \<notin> set (route_methods r)) \<longrightarrow>
      app conv cfg net request log =
        (JSONResponse 405 (JObj [(''detail'', JStr ''Method Not Allowed'')]), log)"
  proof
    assume h: "\<not> is_preflight request \<and>
      (\<exists>r\<in>set routes. match_path (route_path r) ?p \<noteq> None) \<and>
      (\<forall>r\<in>set routes. match_path (route_path r) ?p \<noteq> None \<longrightarrow>
         ?verb \<notin> set (route_methods r))"
    then have "\<And>r. r \<in> set routes \<Longrightarrow> fst (matches r ?verb ?p) \<noteq> FullMatch"
      by (auto simp: fst_matches)
    then have full: "first_match FullMatch routes ?verb ?p = None" by (rule first_match_none)
    from h obtain r where "r \<in> set routes" "match_path (route_path r) ?p \<noteq> None"
      "?verb \<notin> set (route_methods r)" by blast
    then have "r \<in> set routes" "fst (matches r ?verb ?p) = PartialMatch"
      by (simp_all add: fst_matches)
    then have "first_match PartialMatch routes ?verb ?p \<noteq> None" by (rule first_match_some)
    then obtain r' ps' where "first_match PartialMatch routes ?verb ?p = Some (r', ps')"
      by (cases "first_match PartialMatch routes ?verb ?p") auto
    with h full show "app conv cfg net request log =
        (JSONResponse 405 (JObj [(''detail'', JStr ''Method Not Allowed'')]), log)"
      by (simp add: app_def router_def respond_def)
  qed
  have c: "\<not> is_preflight request \<and>
    (\<forall>r\<in>set routes. match_path (route_path r) ?p = None) \<and>
    (\<exists>r\<in>set routes. match_path (route_path r) (redirect_path ?p) \<noteq> None) \<longrightarrow>
      app conv cfg net request log = (RedirectResponse (redirect_path ?p), log)"
  proof
    assume h: "\<not> is_preflight request \<and>
      (\<forall>r\<in>set routes. match_path (route_path r) ?p = None) \<and>
      (\<exists>r\<in>set routes. match_path (route_path r) (redirect_path ?p) \<noteq> None)"
    have "\<lparr>route_path = [Lit ''/''], route_methods = [''GET''], route_endpoint = EP_root\<rparr> \<in> set routes"
      by (simp add: routes_def)
    with h have "match_path [Lit ''/''] ?p = None" by fastforce
    then have root: "?p \<noteq> ''/''" by auto
    from h have "\<exists>r\<in>set routes. fst (matches r ?verb (redirect_path ?p)) \<noteq> NoMatch"
      by (simp add: fst_matches)
    then have "list_ex (\<lambda>r. fst (matches r ?verb (redirect_path ?p)) \<noteq> NoMatch) routes"
      by (simp add: list_ex_iff)
    with h none root show "app conv cfg net request log = (RedirectResponse (redirect_path ?p), log)"
      by (simp add: app_def router_def respond_def)
  qed
  have d: "is_preflight request \<longrightarrow> app conv cfg net request log = (PreflightResponse, log)"
    by (simp add: app_def)
  from a b c d show ?thesis by (intro conjI)
qed

text \<open>A path that no route matches, a method that \<^verbatim>\<open>/users\<close> does not allow.\<close>

theorem unmatched_request_responses_witness:
  "app decimal_int example_settings backend_ok (example_request ''GET'' ''/nothing'') [] =
     (JSONResponse 404 (JObj [(''detail'', JStr ''Resource not found'')]), []) \<and>
   app decimal_int example_settings backend_ok (example_request ''PUT'' ''/users'') [] =
     (JSONResponse 405 (JObj [(''detail'', JStr ''Method Not Allowed'')]), [])"
proof -
  have a: "app decimal_int example_settings backend_ok (example_request ''GET'' ''/nothing'') [] =
     (JSONResponse 404 (JObj [(''detail'', JStr ''Resource not found'')]), [])"
  proof -
    let ?request = "example_request ''GET'' ''/nothing''"
    have 1: "\<not> is_preflight ?request" by (simp add: is_preflight_def example_request_def)
    have 2: "\<forall>r\<in>set routes. match_path (route_path r) (req_path ?request) = None"
      by (simp add: routes_def example_request_def)
    have 3: "\<forall>r\<in>set routes. match_path (route_path r) (redirect_path (req_path ?request)) = None"
      by (simp add: routes_def example_request_def redirect_path_def)
    from unmatched_request_responses [of ?request decimal_int example_settings backend_ok "[]"] 1 2 3
    show ?thesis by blast
  qed
  have b: "app decimal_int example_settings backend_ok (example_request ''PUT'' ''/users'') [] =
     (JSONResponse 405 (JObj [(''detail'', JStr ''Method Not Allowed'')]), [])"
  proof -
    let ?request = "example_request ''PUT'' ''/users''"
    have 1: "\<not> is_preflight ?request" by (simp add: is_preflight_def example_request_def)
    have 2: "\<exists>r\<in>set routes. match_path (route_path r) (req_path ?request) \<noteq> None"
      by (simp add: routes_def example_request_def)
    have 3: "\<forall>r\<in>set routes. match_path (route_path r) (req_path ?request) \<noteq> None \<longrightarrow>
        req_method ?request \<notin> set (route_methods r)"
      by (simp add: routes_def example_request_def)
    from unmatched_request_responses [of ?request decimal_int example_settings backend_ok "[]"] 1 2 3
    show ?thesis by blast
  qed
  from a b show ?thesis by (intro conjI)
qed

subsection \<open>The placeholder of the task routes\<close>

lemma app_task_by_id:
  assumes "seg \<noteq> []" "CHR ''/'' \<notin> set seg"
    and "req_method request = ''GET'' \<or> req_method request = ''PUT'' \<or>
         req_method request = ''PATCH'' \<or> req_method request = ''DELETE''"
    and "req_path request = ''/tasks/'' @ seg"
  shows "app conv cfg net request log =
     (case conv seg of
        None \<Rightarrow> (UnprocessableEntity ''task_id'', log)
      | Some task_id \<Rightarrow>
          (case format_int task_id of
             Inl e \<Rightarrow> (JSONResponse 500 (JObj [(''detail'', JStr ''Internal server error'')]), log)
           | Inr s \<Rightarrow>
               (respond request
                  (fst (forward_request net (TASK_SERVICE_URL cfg) (''/tasks/'' @ s)
                          (req_method request) request
                          (if req_method request \<in> set [''PUT'', ''PATCH'']
                           then Some (req_body request) else None) log)),
                log @ [forward_call (TASK_SERVICE_URL cfg) (''/tasks/'' @ s)
                         (req_method request) request
                         (if req_method request \<in> set [''PUT'', ''PATCH'']
                          then Some (req_body request) else None)])))"
proof -
  from assms(3) have np: "\<not> is_preflight request" by (auto simp: is_preflight_def)
  from first_match_task_by_id [OF assms(1,2,3)] assms(4)
  have fm: "first_match FullMatch routes (req_method request) (req_path request) =
     Some (\<lparr>route_path = [Lit ''/tasks/'', Param ''task_id''],
            route_methods = [''GET'', ''PUT'', ''PATCH'', ''DELETE''],
            route_endpoint = EP_task_by_id_route\<rparr>, [(''task_id'', seg)])" by simp
  have fi: "\<And>n e. format_int n = Inl e \<Longrightarrow> e = ValueError"
    by (simp add: format_int_def split: if_splits)
  show ?thesis
  proof (cases "conv seg")
    case None
    then show ?thesis
      by (simp add: app_full_match [OF np fm] run_task_by_id_route respond_def
          del: run_endpoint.simps)
  next
    case (Some n)
    show ?thesis
    proof (cases "format_int n")
      case (Inl e)
      with fi have "e = ValueError" by simp
      with Inl Some show ?thesis
        by (simp add: app_full_match [OF np fm] run_task_by_id_route respond_def
            internal_error_handler_def del: run_endpoint.simps)
    next
      case (Inr s)
      with Some show ?thesis
        by (simp add: app_full_match [OF np fm] run_task_by_id_route del: run_endpoint.simps)
    qed
  qed
qed

lemma app_task_status:
  assumes "seg \<noteq> []" "CHR ''/'' \<notin> set seg"
    and "req_method request = ''PATCH''"
    and "req_path request = ''/tasks/'' @ seg @ ''/status''"
  shows "app conv cfg net request log =
     (case conv seg of
        None \<Rightarrow> (UnprocessableEntity ''task_id'', log)
      | Some task_id \<Rightarrow>
          (case format_int task_id of
             Inl e \<Rightarrow> (JSONResponse 500 (JObj [(''detail'', JStr ''Internal server error'')]), log)
           | Inr s \<Rightarrow>
               (respond request
                  (fst (forward_request net (TASK_SERVICE_URL cfg) (''/tasks/'' @ s @ ''/status'')
                          (req_method request) request (Some (req_body request)) log)),
                log @ [forward_call (TASK_SERVICE_URL cfg) (''/tasks/'' @ s @ ''/status'')
                         (req_method request) request (Some (req_body request))])))"
proof -
  from assms(3) have np: "\<not> is_preflight request" by (auto simp: is_preflight_def)
  from first_match_task_status [OF assms(1,2)] assms(3,4)
  have fm: "first_match FullMatch routes (req_method request) (req_path request) =
     Some (\<lparr>route_path = [Lit ''/tasks/'', Param ''task_id'', Lit ''/status''],
            route_methods = [''PATCH''],
            route_endpoint = EP_task_status_route\<rparr>, [(''task_id'', seg)])" by simp
  have fi: "\<And>n e. format_int n = Inl e \<Longrightarrow> e = ValueError"
    by (simp add: format_int_def split: if_splits)
  show ?thesis
  proof (cases "conv seg")
    case None
    then show ?thesis
      by (simp add: app_full_match [OF np fm] run_task_status_route respond_def
          del: run_endpoint.simps)
  next
    case (Some n)
    show ?thesis
    proof (cases "format_int n")
      case (Inl e)
      with fi have "e = ValueError" by simp
      with Inl Some show ?thesis
        by (simp add: app_full_match [OF np fm] run_task_status_route respond_def
            internal_error_handler_def del: run_endpoint.simps)
    next
      case (Inr s)
      with Some show ?thesis
        by (simp add: app_full_match [OF np fm] run_task_status_route del: run_endpoint.simps)
    qed
  qed
qed

text \<open>
  Claim C6, as stated, fails on the validation: both handlers declare the placeholder as
  \<^verbatim>\<open>int\<close>, so the framework converts the captured segment before the handler runs,
  and a segment that does not convert, such as \<^verbatim>\<open>abc\<close>, is answered with 422 by the
  gateway and never reaches the backend.
\<close>

theorem non_integer_segment_counterexample:
  "app decimal_int example_settings backend_ok (example_request ''GET'' ''/tasks/abc'') [] =
     (UnprocessableEntity ''task_id'', []) \<and>
   match_path [Lit ''/tasks/'', Param ''task_id''] ''/tasks/abc'' = Some [(''task_id'', ''abc'')] \<and>
   decimal_int ''abc'' = None"
proof -
  have c: "decimal_int ''abc'' = None" by (simp add: decimal_int_def is_digit_def)
  have a: "app decimal_int example_settings backend_ok (example_request ''GET'' ''/tasks/abc'') [] =
     (UnprocessableEntity ''task_id'', [])"
    using app_task_by_id [of "''abc''" "example_request ''GET'' ''/tasks/abc''" decimal_int
        example_settings backend_ok "[]"] c
    by (simp add: example_request_def)
  have b: "match_path [Lit ''/tasks/'', Param ''task_id''] ''/tasks/abc'' = Some [(''task_id'', ''abc'')]"
    using match_path_task_by_id [of "''abc''"] by simp
  from a b c show ?thesis by (intro conjI)
qed

text \<open>
  Claim C6, amended. The placeholder of \<^verbatim>\<open>/tasks/{task_id}\<close> matches exactly the
  non-empty texts without a slash, whatever their content, and so does that of
  \<^verbatim>\<open>/tasks/{task_id}/status\<close>. The captured segment is then converted to an integer
  by the framework. A segment that the conversion rejects is answered with 422, and no
  call is issued. A segment that converts is forwarded as the decimal form of the integer
  (not as the captured text), to \<^verbatim>\<open>/tasks/<integer>\<close> or
  \<^verbatim>\<open>/tasks/<integer>/status\<close> of the task service; should the integer have more
  than 4300 digits, the handler fails and the gateway answers 500 with
  \<^verbatim>\<open>{"detail": "Internal server error"}\<close>, and no call is issued.
\<close>

theorem placeholder_segment_validated:
  "match_path [Lit ''/tasks/'', Param ''task_id''] (''/tasks/'' @ seg) =
     (if seg \<noteq> [] \<and> CHR ''/'' \<notin> set seg then Some [(''task_id'', seg)] else None) \<and>
   (seg \<noteq> [] \<and> CHR ''/'' \<notin> set seg \<longrightarrow>
      match_path [Lit ''/tasks/'', Param ''task_id'', Lit ''/status''] (''/tasks/'' @ seg @ ''/status'') =
        Some [(''task_id'', seg)]) \<and>
   (seg \<noteq> [] \<and> CHR ''/'' \<notin> set seg \<and>
    ((req_path request = ''/tasks/'' @ seg \<and>
      (req_method request = ''GET'' \<or> req_method request = ''PUT'' \<or>
       req_method request = ''PATCH'' \<or> req_method request = ''DELETE'')) \<or>
     (req_path request = ''/tasks/'' @ seg @ ''/status'' \<and> req_method request = ''PATCH'')) \<longrightarrow>
      (conv seg = None \<longrightarrow>
         app conv cfg net request log = (UnprocessableEntity ''task_id'', log)) \<and>
      (\<forall>task_id. conv seg = Some task_id \<and>
         length (str_nat (nat \<bar>task_id\<bar>)) \<le> int_max_str_digits \<longrightarrow>
           (\<exists>c. snd (app conv cfg net request log) = log @ [c] \<and>
                call_url c =
                  (if req_path request = ''/tasks/'' @ seg
                   then TASK_SERVICE_URL cfg @ ''/tasks/'' @ str_int task_id
                   else TASK_SERVICE_URL cfg @ ''/tasks/'' @ str_int task_id @ ''/status''))) \<and>
      (\<forall>task_id. conv seg = Some task_id \<and>
         int_max_str_digits < length (str_nat (nat \<bar>task_id\<bar>)) \<longrightarrow>
           app conv cfg net request log =
             (JSONResponse 500 (JObj [(''detail'', JStr ''Internal server error'')]), log)))"
proof -
  have m1: "match_path [Lit ''/tasks/'', Param ''task_id''] (''/tasks/'' @ seg) =
     (if seg \<noteq> [] \<and> CHR ''/'' \<notin> set seg then Some [(''task_id'', seg)] else None)"
    by (rule match_path_task_by_id)
  have m2: "seg \<noteq> [] \<and> CHR ''/'' \<notin> set seg \<longrightarrow>
      match_path [Lit ''/tasks/'', Param ''task_id'', Lit ''/status''] (''/tasks/'' @ seg @ ''/status'') =
        Some [(''task_id'', seg)]"
    using match_path_task_status [of seg] by blast
  have m3: "seg \<noteq> [] \<and> CHR ''/'' \<notin> set seg \<and>
    ((req_path request = ''/tasks/'' @ seg \<and>
      (req_method request = ''GET'' \<or> req_method request = ''PUT'' \<or>
       req_method request = ''PATCH'' \<or> req_method request = ''DELETE'')) \<or>
     (req_path request = ''/tasks/'' @ seg @ ''/status'' \<and> req_method request = ''PATCH'')) \<longrightarrow>
      (conv seg = None \<longrightarrow>
         app conv cfg net request log = (UnprocessableEntity ''task_id'', log)) \<and>
      (\<forall>task_id. conv seg = Some task_id \<and>
         length (str_nat (nat \<bar>task_id\<bar>)) \<le> int_max_str_digits \<longrightarrow>
           (\<exists>c. snd (app conv cfg net request log) = log @ [c] \<and>
                call_url c =
                  (if req_path request = ''/tasks/'' @ seg
                   then TASK_SERVICE_URL cfg @ ''/tasks/'' @ str_int task_id
                   else TASK_SERVICE_URL cfg @ ''/tasks/'' @ str_int task_id @ ''/status''))) \<and>
      (\<forall>task_id. conv seg = Some task_id \<and>
         int_max_str_digits < length (str_nat (nat \<bar>task_id\<bar>)) \<longrightarrow>
           app conv cfg net request log =
             (JSONResponse 500 (JObj [(''detail'', JStr ''Internal server error'')]), log))"
  proof
    assume h: "seg \<noteq> [] \<and> CHR ''/'' \<notin> set seg \<and>
      ((req_path request = ''/tasks/'' @ seg \<and>
        (req_method request = ''GET'' \<or> req_method request = ''PUT'' \<or>
         req_method request = ''PATCH'' \<or> req_method request = ''DELETE'')) \<or>
       (req_path request = ''/tasks/'' @ seg @ ''/status'' \<and> req_method request = ''PATCH''))"
    then have seg: "seg \<noteq> []" "CHR ''/'' \<notin> set seg" by simp_all
    from h consider
      (by_id) "req_path request = ''/tasks/'' @ seg"
        "req_method request = ''GET'' \<or> req_method request = ''PUT'' \<or>
         req_method request = ''PATCH'' \<or> req_method request = ''DELETE''"
    | (status) "req_path request = ''/tasks/'' @ seg @ ''/status''" "req_method request = ''PATCH''"
      by blast
    then show "(conv seg = None \<longrightarrow>
         app conv cfg net request log = (UnprocessableEntity ''task_id'', log)) \<and>
      (\<forall>task_id. conv seg = Some task_id \<and>
         length (str_nat (nat \<bar>task_id\<bar>)) \<le> int_max_str_digits \<longrightarrow>
           (\<exists>c. snd (app conv cfg net request log) = log @ [c] \<and>
                call_url c =
                  (if req_path request = ''/tasks/'' @ seg
                   then TASK_SERVICE_URL cfg @ ''/tasks/'' @ str_int task_id
                   else TASK_SERVICE_URL cfg @ ''/tasks/'' @ str_int task_id @ ''/status''))) \<and>
      (\<forall>task_id. conv seg = Some task_id \<and>
         int_max_str_digits < length (str_nat (nat \<bar>task_id\<bar>)) \<longrightarrow>
           app conv cfg net request log =
             (JSONResponse 500 (JObj [(''detail'', JStr ''Internal server error'')]), log))"
    proof cases
      case by_id
      note app = app_task_by_id [OF seg by_id(2) by_id(1), of conv cfg net log]
      show ?thesis
        by (simp add: app by_id(1) format_int_def forward_call_def)
    next
      case status
      have ne: "''/tasks/'' @ seg @ ''/status'' \<noteq> ''/tasks/'' @ seg" by simp
      note app = app_task_status [OF seg status(2) status(1), of conv cfg net log]
      show ?thesis
        using ne by (simp add: app status(1) format_int_def forward_call_def)
    qed
  qed
  from m1 m2 m3 show ?thesis by (intro conjI)
qed

text \<open>The segment \<^verbatim>\<open>42\<close>, converted by the example conversion.\<close>

theorem placeholder_segment_validated_witness:
  "decimal_int ''42'' = Some 42 \<and>
   (\<exists>c. snd (app decimal_int example_settings backend_ok (example_request ''GET'' ''/tasks/42'') []) =
           [c] \<and>
        call_url c = ''http://localhost:8003/tasks/42'')"
proof -
  let ?request = "example_request ''GET'' ''/tasks/42''"
  have d: "decimal_int ''42'' = Some 42"
    by (simp add: decimal_int_def is_digit_def nat_of_digits_def)
  have s: "str_nat 42 = ''42''"
    by (simp add: str_nat.simps digit_char_def char_of_def bit_iff_odd)
  have l: "length (str_nat (nat \<bar>42::int\<bar>)) \<le> int_max_str_digits"
    by (simp add: s int_max_str_digits_def)
  have p: "''42'' \<noteq> [] \<and> CHR ''/'' \<notin> set ''42'' \<and>
    ((req_path ?request = ''/tasks/'' @ ''42'' \<and>
      (req_method ?request = ''GET'' \<or> req_method ?request = ''PUT'' \<or>
       req_method ?request = ''PATCH'' \<or> req_method ?request = ''DELETE'')) \<or>
     (req_path ?request = ''/tasks/'' @ ''42'' @ ''/status'' \<and> req_method ?request = ''PATCH''))"
    by (simp add: example_request_def)
  from placeholder_segment_validated [of "''42''" ?request decimal_int example_settings backend_ok "[]"]
    p d l
  have "\<exists>c. snd (app decimal_int example_settings backend_ok ?request []) = [] @ [c] \<and>
      call_url c =
        (if req_path ?request = ''/tasks/'' @ ''42''
         then TASK_SERVICE_URL example_settings @ ''/tasks/'' @ str_int 42
         else TASK_SERVICE_URL example_settings @ ''/tasks/'' @ str_int 42 @ ''/status'')"
    by blast
  then have "\<exists>c. snd (app decimal_int example_settings backend_ok ?request []) = [c] \<and>
      call_url c = ''http://localhost:8003/tasks/42''"
    by (simp add: example_request_def example_settings_def str_int_def s)
  with d show ?thesis by (intro conjI)
qed

end
